theory Spec2Isabelle
  imports Complex_Main "HOL-Library.Multiset"
begin

section \<open>Document trees\<close>

text \<open>
  The scripts work on trees built by the HTML parser: a \<open>Tag\<close> has a name, an attribute
  dictionary and an ordered list of children (\<open>contents\<close>); a child is either a text node
  (\<open>NavigableString\<close>, the \<open>Inl\<close> injection) or another \<open>Tag\<close> (\<open>Inr\<close>). Comments and other
  special string kinds are not modelled. A \<open>char\<close> stands for one code point below 256.

  A Python reference to a node of a document is modelled by the node's position: the list
  of child indices leading to it from the root of the tree that is searched. Two references
  denote the same object exactly when their positions are equal.
\<close>

type_synonym path = "nat list"

datatype tag = Tag (name: string) (attrs: "(string \<times> string) list")
                   (contents: "(string + tag) list")

type_synonym node = "string + tag"

text \<open>\<open>tag.descendants\<close>: every node below the tag, in document order (pre-order).\<close>

function descendants :: "tag \<Rightarrow> (path \<times> node) list"
  and descendants_from :: "nat \<Rightarrow> node list \<Rightarrow> (path \<times> node) list" where
  "descendants (Tag n a cs) = descendants_from 0 cs"
| "descendants_from i [] = []"
| "descendants_from i (Inl s # cs) = ([i], Inl s) # descendants_from (Suc i) cs"
| "descendants_from i (Inr t # cs) =
     ([i], Inr t) # map (\<lambda>(p, x). (i # p, x)) (descendants t) @ descendants_from (Suc i) cs"
  by pat_completeness auto
termination
  by (relation "measure (\<lambda>x. case x of Inl t \<Rightarrow> size t
                                   | Inr (i, cs) \<Rightarrow> size_list (size_sum (\<lambda>_. 0) size) cs)")
     auto

text \<open>\<open>tag.children\<close>: the immediate children only, with their positions.\<close>

definition children :: "tag \<Rightarrow> (path \<times> node) list" where
  "children t = map (\<lambda>(i, x). ([i], x)) (enumerate 0 (contents t))"

definition only_tags :: "(path \<times> node) list \<Rightarrow> (path \<times> tag) list" where
  "only_tags es = List.map_filter (\<lambda>(p, x). case x of Inl s \<Rightarrow> None | Inr c \<Rightarrow> Some (p, c)) es"

definition only_strings :: "(path \<times> node) list \<Rightarrow> (path \<times> string) list" where
  "only_strings es = List.map_filter (\<lambda>(p, x). case x of Inl s \<Rightarrow> Some (p, s) | Inr c \<Rightarrow> None) es"

text \<open>
  \<open>tag.find_all(name, attrs, recursive=...)\<close> restricted to the criteria the scripts use:
  a predicate on tags (a tag name, a list of tag names, a name together with an \<open>id\<close>
  attribute). Only \<open>Tag\<close> nodes can match such criteria. \<open>tag.find(...)\<close> is the first
  element of \<open>find_all\<close>, or \<open>None\<close>.
\<close>

definition find_all :: "tag \<Rightarrow> (tag \<Rightarrow> bool) \<Rightarrow> bool \<Rightarrow> (path \<times> tag) list" where
  "find_all t P recursive =
     filter (\<lambda>(p, c). P c) (only_tags (if recursive then descendants t else children t))"

definition find_tag :: "tag \<Rightarrow> (tag \<Rightarrow> bool) \<Rightarrow> (path \<times> tag) option" where
  "find_tag t P = (case find_all t P True of [] \<Rightarrow> None | e # _ \<Rightarrow> Some e)"

text \<open>The criterion \<open>["ol", "ul"]\<close>, also written \<open>name in ("ol", "ul")\<close>.\<close>

definition ol_ul :: "tag \<Rightarrow> bool" where
  "ol_ul t = (name t = ''ol'' \<or> name t = ''ul'')"

text \<open>The criterion \<open>"li"\<close>.\<close>

definition li :: "tag \<Rightarrow> bool" where
  "li t = (name t = ''li'')"

text \<open>The criterion \<open>(n, {"id": v})\<close>: a tag name together with the value of \<open>id\<close>.\<close>

definition tag_id :: "string \<Rightarrow> string \<Rightarrow> tag \<Rightarrow> bool" where
  "tag_id n v t = (name t = n \<and> map_of (attrs t) ''id'' = Some v)"

section \<open>Strings\<close>

text \<open>\<open>str.isspace\<close> on one character, for code points below 256.\<close>

definition isspace :: "char \<Rightarrow> bool" where
  "isspace c = (of_char c \<in> {9, 10, 11, 12, 13, 28, 29, 30, 31, 32, 133, 160 :: nat})"

text \<open>\<open>str.strip()\<close>.\<close>

definition strip :: "string \<Rightarrow> string" where
  "strip s = rev (dropWhile isspace (rev (dropWhile isspace s)))"

text \<open>\<open>sep.join(xs)\<close>.\<close>

fun join :: "string \<Rightarrow> string list \<Rightarrow> string" where
  "join sep [] = []"
| "join sep [x] = x"
| "join sep (x # y # ys) = x @ sep @ join sep (y # ys)"

text \<open>
  \<open>tag.stripped_strings\<close>: the descendant strings in document order, each one stripped,
  those that are empty after stripping left out.
\<close>

definition stripped_strings :: "tag \<Rightarrow> string list" where
  "stripped_strings t =
     filter (\<lambda>s. s \<noteq> []) (map (\<lambda>(p, s). strip s) (only_strings (descendants t)))"

section \<open>The classifier: \<open>analyze_list\<close>\<close>

text \<open>
  \<open>analyze_list\<close> is the same function in \<open>dynamic_eligibility_checker.py\<close> and in
  \<open>automation_api.py\<close>. A statement record is the dictionary with the keys \<open>text\<close>, \<open>type\<close>
  and \<open>has_sub_bullet\<close>; the result is the dictionary with the keys \<open>correct\<close>,
  \<open>incorrect\<close>, \<open>correct_count\<close> and \<open>incorrect_count\<close>.
\<close>

record statement =
  stmt_text :: string
  stmt_type :: string
  has_sub_bullet :: bool

record results =
  correct :: "statement list"
  incorrect :: "statement list"
  correct_count :: int
  incorrect_count :: int

definition empty_results :: results where
  "empty_results = \<lparr>correct = [], incorrect = [], correct_count = 0, incorrect_count = 0\<rparr>"

text \<open>\<open>" ".join(item.stripped_strings)\<close>\<close>

definition item_text :: "tag \<Rightarrow> string" where
  "item_text item = join '' '' (stripped_strings item)"

text \<open>\<open>item.find(["ol", "ul"]) is not None\<close>\<close>

definition has_sub :: "tag \<Rightarrow> bool" where
  "has_sub item = (find_tag item ol_ul \<noteq> None)"

text \<open>One pass of the loop over \<open>top_items\<close>, on the result dictionary built so far.\<close>

definition analyze_item :: "string \<Rightarrow> tag \<Rightarrow> results \<Rightarrow> results" where
  "analyze_item criteria_type item res =
     (let text = item_text item in
      if text = [] then res
      else
        let rec = \<lparr>stmt_text = text, stmt_type = criteria_type, has_sub_bullet = has_sub item\<rparr> in
        if has_sub item
        then res\<lparr>incorrect := incorrect res @ [rec], incorrect_count := incorrect_count res + 1\<rparr>
        else res\<lparr>correct := correct res @ [rec], correct_count := correct_count res + 1\<rparr>)"

text \<open>\<open>list_root.find_all("li", recursive=False)\<close>\<close>

definition top_items :: "tag \<Rightarrow> tag list" where
  "top_items list_root = map snd (find_all list_root li False)"

definition analyze_list :: "tag option \<Rightarrow> string \<Rightarrow> results" where
  "analyze_list list_root criteria_type =
     (case list_root of
        None \<Rightarrow> empty_results
      | Some r \<Rightarrow>
          if \<not> ol_ul r then
            (case find_tag r ol_ul of
               None \<Rightarrow> empty_results
             | Some (p, first_list) \<Rightarrow>
                 fold (analyze_item criteria_type) (top_items first_list) empty_results)
          else fold (analyze_item criteria_type) (top_items r) empty_results)"

text \<open>The list whose items are enumerated, after the drill-down; \<open>None\<close> when there is none.\<close>

definition resolved_list :: "tag option \<Rightarrow> tag option" where
  "resolved_list list_root =
     (case list_root of
        None \<Rightarrow> None
      | Some r \<Rightarrow> if ol_ul r then Some r else map_option snd (find_tag r ol_ul))"

definition enumerated_items :: "tag option \<Rightarrow> tag list" where
  "enumerated_items list_root =
     (case resolved_list list_root of None \<Rightarrow> [] | Some l \<Rightarrow> top_items l)"

definition mk_statement :: "string \<Rightarrow> tag \<Rightarrow> statement" where
  "mk_statement criteria_type item =
     \<lparr>stmt_text = item_text item, stmt_type = criteria_type, has_sub_bullet = has_sub item\<rparr>"

section \<open>The locator of \<open>dynamic_eligibility_checker.py\<close>\<close>

text \<open>
  \<open>tag.string\<close>: the single string below a tag, looked for through a chain of only
  children; \<open>None\<close> when a tag on the way has no child or more than one.
\<close>

fun tag_string :: "tag \<Rightarrow> string option" where
  "tag_string (Tag n a [Inl s]) = Some s"
| "tag_string (Tag n a [Inr c]) = tag_string c"
| "tag_string (Tag n a cs) = None"

text \<open>
  The heading patterns, searched with \<open>re.search(pattern, t.strip(), re.I)\<close>. The patterns
  of \<open>dynamic_eligibility_checker.py\<close> are \<open>\[?\s*Inclusion\s+Criteria\s*\]?\<close> and the same
  with \<open>Exclusion\<close>; those of \<open>automation_api.py\<close> are \<open>Inclusion\s+Criteria\<close> and
  \<open>Exclusion\s+Criteria\<close>. A pattern is given by whether it has the bracket parts and by
  its first word in lower case. \<open>match_at\<close> says whether the pattern matches at the start of
  a string: the optional bracket and the white space are taken greedily (taking less never
  helps, since no word starts with a bracket or a space), and the optional parts after the
  second word always match.
\<close>

definition ascii_lower :: "char \<Rightarrow> char" where
  "ascii_lower c =
     (if 65 \<le> (of_char c :: nat) \<and> (of_char c :: nat) \<le> 90 then char_of (of_char c + 32 :: nat)
      else c)"

definition ci_prefix :: "string \<Rightarrow> string \<Rightarrow> bool" where
  "ci_prefix w t = (length w \<le> length t \<and> map ascii_lower (take (length w) t) = w)"

definition match_at :: "bool \<Rightarrow> string \<Rightarrow> string \<Rightarrow> bool" where
  "match_at brackets word u =
     (let u1 = (if brackets
                then dropWhile isspace (case u of [] \<Rightarrow> [] | c # r \<Rightarrow> if c = CHR ''['' then r else u)
                else u);
          u2 = drop (length word) u1;
          u3 = dropWhile isspace u2
      in ci_prefix word u1 \<and> u3 \<noteq> u2 \<and> ci_prefix ''criteria'' u3)"

fun re_search :: "bool \<Rightarrow> string \<Rightarrow> string \<Rightarrow> bool" where
  "re_search brackets word [] = match_at brackets word []"
| "re_search brackets word (c # cs) =
     (match_at brackets word (c # cs) \<or> re_search brackets word cs)"

text \<open>\<open>lambda t: isinstance(t, str) and re.search(pattern, t.strip(), re.I)\<close>\<close>

definition heading_text :: "bool \<Rightarrow> string \<Rightarrow> string option \<Rightarrow> bool" where
  "heading_text brackets word t =
     (case t of None \<Rightarrow> False | Some s \<Rightarrow> re_search brackets word (strip s))"

text \<open>
  The tags after the node at position \<open>p\<close> among the children of its parent, in order:
  the values that repeated calls of \<open>find_next_sibling()\<close> run through. The root of the
  document has no sibling.
\<close>

definition next_sibling_tags :: "tag \<Rightarrow> path \<Rightarrow> (path \<times> tag) list" where
  "next_sibling_tags doc p =
     (if p = [] then []
      else filter (\<lambda>(q, c). q \<noteq> [] \<and> butlast q = butlast p \<and> last p < last q)
             (only_tags (descendants doc)))"

text \<open>
  The loop \<open>while sib: sib = sib.find_next_sibling(); ...\<close>: the first following sibling
  tag that is a list, \<open>None\<close> when the siblings run out.
\<close>

fun first_list_of :: "(path \<times> tag) list \<Rightarrow> (path \<times> tag) option" where
  "first_list_of [] = None"
| "first_list_of ((q, c) # sibs) = (if ol_ul c then Some (q, c) else first_list_of sibs)"

text \<open>A position found below the node at position \<open>r\<close>, as a position in the document.\<close>

definition below :: "path \<Rightarrow> path \<times> 'a \<Rightarrow> path \<times> 'a" where
  "below r e = (r @ fst e, snd e)"

text \<open>
  \<open>_find_list_after_heading(root, pattern)\<close> of \<open>find_inclusion_exclusion_lists\<close>;
  \<open>root.find(True, string=f)\<close> is the first tag below \<open>root\<close> whose \<open>.string\<close> satisfies
  \<open>f\<close>. The document is the criteria section, \<open>root\<close> a tag of it with its position.
\<close>

definition find_list_after_heading ::
    "tag \<Rightarrow> path \<times> tag \<Rightarrow> string \<Rightarrow> (path \<times> tag) option" where
  "find_list_after_heading doc root_tag word =
     (case find_tag (snd root_tag) (\<lambda>c. heading_text True word (tag_string c)) of
        None \<Rightarrow> None
      | Some heading \<Rightarrow>
          first_list_of (next_sibling_tags doc (fst (below (fst root_tag) heading))))"

text \<open>Lines 47 and 48: the preferred container.\<close>

definition search_root :: "tag \<Rightarrow> path \<times> tag" where
  "search_root criteria_section =
     (case find_tag criteria_section (tag_id ''div'' ''eligibility-criteria-description'') of
        Some desc_div \<Rightarrow> desc_div
      | None \<Rightarrow> ([], criteria_section))"

text \<open>
  Lines 76 to 84, for one section: \<open>div = criteria_section.find("div", {"id": v})\<close>, then
  \<open>div.find(["ol", "ul"]) or div\<close> when the container exists.
\<close>

definition older_structure :: "tag \<Rightarrow> string \<Rightarrow> (path \<times> tag) option" where
  "older_structure criteria_section v =
     (case find_tag criteria_section (tag_id ''div'' v) of
        None \<Rightarrow> None
      | Some d \<Rightarrow>
          (case find_tag (snd d) ol_ul of
             Some l \<Rightarrow> Some (below (fst d) l)
           | None \<Rightarrow> Some d))"

text \<open>
  The last resort, lines 86 to 93 (and lines 118 to 125 of \<open>automation_api.py\<close>, which are
  the same): \<open>all_lists\<close> is the result of \<open>find_all(["ol", "ul"])\<close>.
\<close>

definition last_resort ::
    "(path \<times> tag) list \<Rightarrow> (path \<times> tag) option \<Rightarrow> (path \<times> tag) option \<Rightarrow>
     (path \<times> tag) option \<times> (path \<times> tag) option" where
  "last_resort all_lists inclusion_list exclusion_list =
     (if inclusion_list = None \<or> exclusion_list = None then
        (if all_lists \<noteq> [] then
           (if inclusion_list = None \<and> 1 \<le> length all_lists then Some (all_lists ! 0) else inclusion_list,
            if exclusion_list = None \<and> 2 \<le> length all_lists then Some (all_lists ! 1) else exclusion_list)
         else (inclusion_list, exclusion_list))
      else (inclusion_list, exclusion_list))"

text \<open>The two lists as they are before the last resort (lines 72 to 84).\<close>

definition before_last_resort :: "tag \<Rightarrow> (path \<times> tag) option \<times> (path \<times> tag) option" where
  "before_last_resort criteria_section =
     (let inclusion_list =
            find_list_after_heading criteria_section (search_root criteria_section) ''inclusion'';
          exclusion_list =
            find_list_after_heading criteria_section (search_root criteria_section) ''exclusion''
      in (if inclusion_list = None
          then older_structure criteria_section ''eligibility-criteria-inclusion''
          else inclusion_list,
          if exclusion_list = None
          then older_structure criteria_section ''eligibility-criteria-exclusion''
          else exclusion_list))"

text \<open>\<open>search_root.find_all(["ol", "ul"])\<close>, as positions in the criteria section.\<close>

definition lists_of :: "tag \<Rightarrow> (path \<times> tag) list" where
  "lists_of criteria_section =
     map (below (fst (search_root criteria_section)))
       (find_all (snd (search_root criteria_section)) ol_ul True)"

definition find_inclusion_exclusion_lists ::
    "tag \<Rightarrow> (path \<times> tag) option \<times> (path \<times> tag) option" where
  "find_inclusion_exclusion_lists criteria_section =
     last_resort (lists_of criteria_section)
       (fst (before_last_resort criteria_section)) (snd (before_last_resort criteria_section))"

section \<open>The locator of \<open>automation_api.py\<close>\<close>

text \<open>
  \<open>_find_list_after_heading(pattern)\<close> of \<open>find_inclusion_exclusion_lists_from_html\<close>:
  \<open>root.find(string=f)\<close> is the first string below the root that satisfies \<open>f\<close>, and the
  siblings scanned are those of the string's parent. The root is the parsed document.
\<close>

definition find_string :: "tag \<Rightarrow> (string \<Rightarrow> bool) \<Rightarrow> (path \<times> string) option" where
  "find_string t P =
     (case filter (\<lambda>(p, s). P s) (only_strings (descendants t)) of
        [] \<Rightarrow> None
      | e # _ \<Rightarrow> Some e)"

definition find_list_after_heading_api :: "tag \<Rightarrow> string \<Rightarrow> (path \<times> tag) option" where
  "find_list_after_heading_api root_tag word =
     (case find_string root_tag (\<lambda>s. heading_text False word (Some s)) of
        None \<Rightarrow> None
      | Some heading \<Rightarrow> first_list_of (next_sibling_tags root_tag (butlast (fst heading))))"

definition find_inclusion_exclusion_lists_from_html ::
    "tag \<Rightarrow> (path \<times> tag) option \<times> (path \<times> tag) option" where
  "find_inclusion_exclusion_lists_from_html soup =
     last_resort (find_all soup ol_ul True)
       (find_list_after_heading_api soup ''inclusion'')
       (find_list_after_heading_api soup ''exclusion'')"

section \<open>One identifier in \<open>dynamic_eligibility_checker.py\<close>\<close>

text \<open>A Python exception, by its class and, where the scripts set it, its message.\<close>

datatype exn = KeyError string | AttributeError | RuntimeError string | RequestException
  | HTTPError | JSONDecodeError | OtherError string

text \<open>\<open>re.compile("Eligibility Criteria", re.I)\<close> as a \<open>string=\<close> criterion.\<close>

fun ci_search :: "string \<Rightarrow> string \<Rightarrow> bool" where
  "ci_search w [] = ci_prefix w []"
| "ci_search w (c # cs) = (ci_prefix w (c # cs) \<or> ci_search w cs)"

definition tag_at :: "tag \<Rightarrow> path \<Rightarrow> tag option" where
  "tag_at doc p = (if p = [] then Some doc else map_of (only_tags (descendants doc)) p)"

text \<open>\<open>element.find_parent(n)\<close>: the nearest tag above the position that has the name.\<close>

definition find_parent :: "tag \<Rightarrow> path \<Rightarrow> string \<Rightarrow> tag option" where
  "find_parent doc p n =
     (case filter (\<lambda>t. name t = n)
             (List.map_filter (\<lambda>k. tag_at doc (take k p)) (rev [0..<length p])) of
        [] \<Rightarrow> None
      | t # _ \<Rightarrow> Some t)"

text \<open>Lines 184 to 195 of \<open>fetch_and_analyze_nct\<close>: the criteria section of a page.\<close>

definition find_criteria_section :: "tag \<Rightarrow> tag option" where
  "find_criteria_section soup =
     (case find_tag soup (tag_id ''div'' ''participation-criteria'') of
        Some (p, criteria_section) \<Rightarrow> Some criteria_section
      | None \<Rightarrow>
          (case find_tag soup (tag_id ''section'' ''participation-criteria'') of
             Some (p, criteria_section) \<Rightarrow> Some criteria_section
           | None \<Rightarrow>
               (case find_string soup (ci_search ''eligibility criteria'') of
                  None \<Rightarrow> None
                | Some (p, heading) \<Rightarrow> find_parent soup p ''div'')))"

text \<open>
  \<open>fetch_and_analyze_nct\<close>. Loading the page with the browser and parsing it is the
  parameter \<open>load\<close>, which yields the parsed page or the exception raised on the way. Every
  exception is caught by \<open>except Exception\<close> and turned into \<open>None\<close>.
\<close>

definition fetch_and_analyze_nct ::
    "(string \<Rightarrow> exn + tag) \<Rightarrow> string \<Rightarrow> (results \<times> results) option" where
  "fetch_and_analyze_nct load nct_id =
     (case load nct_id of
        Inl e \<Rightarrow> None
      | Inr soup \<Rightarrow>
          (case find_criteria_section soup of
             None \<Rightarrow> None
           | Some criteria_section \<Rightarrow>
               (case find_inclusion_exclusion_lists criteria_section of
                  (incl_list, excl_list) \<Rightarrow>
                    Some (analyze_list (map_option snd incl_list) ''Inclusion'',
                          analyze_list (map_option snd excl_list) ''Exclusion''))))"

section \<open>The batch loop of \<open>dynamic_eligibility_checker.py\<close>\<close>

record row =
  row_nctId :: string
  total_statements :: int
  correct_statements :: int
  incorrect_statements :: int

record incorrect_row =
  inc_nctId :: string
  inc_type :: string
  inc_statement :: string

text \<open>One pass of the loop of lines 251 to 287, on \<open>all_rows\<close> and \<open>incorrect_rows\<close>.\<close>

definition main_step ::
    "(string \<Rightarrow> (results \<times> results) option) \<Rightarrow> string \<Rightarrow>
     row list \<times> incorrect_row list \<Rightarrow> row list \<times> incorrect_row list" where
  "main_step analyze nct st =
     (case analyze nct of
        None \<Rightarrow> st
      | Some (inc_res, exc_res) \<Rightarrow>
          (let total_correct = correct_count inc_res + correct_count exc_res;
               total_incorrect = incorrect_count inc_res + incorrect_count exc_res;
               total = total_correct + total_incorrect
           in (fst st @ [\<lparr>row_nctId = nct, total_statements = total,
                          correct_statements = total_correct,
                          incorrect_statements = total_incorrect\<rparr>],
               snd st
               @ map (\<lambda>r. \<lparr>inc_nctId = nct, inc_type = ''Inclusion'',
                           inc_statement = stmt_text r\<rparr>) (incorrect inc_res)
               @ map (\<lambda>r. \<lparr>inc_nctId = nct, inc_type = ''Exclusion'',
                           inc_statement = stmt_text r\<rparr>) (incorrect exc_res))))"

definition main_rows ::
    "(string \<Rightarrow> (results \<times> results) option) \<Rightarrow> string list \<Rightarrow>
     row list \<times> incorrect_row list" where
  "main_rows analyze nct_ids = fold (main_step analyze) nct_ids ([], [])"

section \<open>The fetcher of \<open>automation_api.py\<close>\<close>

text \<open>
  A decoded JSON value. Of a number only its truth value matters here. An object is the
  list of its items.
\<close>

datatype json = JNull | JBool bool | JNum real | JStr string | JArr "json list"
  | JObj "(string \<times> json) list"

type_synonym pydict = "(string \<times> json) list"

fun truthy :: "json \<Rightarrow> bool" where
  "truthy JNull = False"
| "truthy (JBool b) = b"
| "truthy (JNum x) = (x \<noteq> 0)"
| "truthy (JStr s) = (s \<noteq> [])"
| "truthy (JArr xs) = (xs \<noteq> [])"
| "truthy (JObj kvs) = (kvs \<noteq> [])"

text \<open>\<open>v.get(k, d)\<close>: only a dictionary has the method.\<close>

fun get :: "json \<Rightarrow> string \<Rightarrow> json \<Rightarrow> exn + json" where
  "get (JObj kvs) k d = Inr (case map_of kvs k of None \<Rightarrow> d | Some v \<Rightarrow> v)"
| "get v k d = Inl AttributeError"

text \<open>
  What the network gives to one call of \<open>session.get\<close>: an exception of the \<open>requests\<close>
  library, or a response with its status code and its body, decoded when it is JSON.
\<close>

datatype response = Failed | Response nat "json option"

text \<open>\<open>str(v)\<close>; the text of a value that is not a string is left to the parameter.\<close>

definition py_str :: "(json \<Rightarrow> string) \<Rightarrow> json \<Rightarrow> string" where
  "py_str repr v = (case v of JStr s \<Rightarrow> s | _ \<Rightarrow> repr v)"

text \<open>The body of the \<open>try\<close> block, lines 58 to 77, on the response of one call.\<close>

definition attempt_body :: "(json \<Rightarrow> string) \<Rightarrow> response \<Rightarrow> exn + string" where
  "attempt_body repr resp =
     (case resp of
        Failed \<Rightarrow> Inl RequestException
      | Response status_code body \<Rightarrow>
          if 400 \<le> status_code \<and> status_code < 600 then Inl HTTPError
          else
            (case body of
               None \<Rightarrow> Inl JSONDecodeError
             | Some data \<Rightarrow>
                 (case get data ''study'' (JObj []) of
                    Inl e \<Rightarrow> Inl e
                  | Inr study \<Rightarrow>
                 (case get study ''protocolSection'' (JObj []) of
                    Inl e \<Rightarrow> Inl e
                  | Inr proto \<Rightarrow>
                 (case get proto ''eligibilityModule'' JNull of
                    Inl e \<Rightarrow> Inl e
                  | Inr elig_mod0 \<Rightarrow>
                 (case (if elig_mod0 = JNull then get proto ''elgibilityModule'' JNull
                        else Inr elig_mod0) of
                    Inl e \<Rightarrow> Inl e
                  | Inr elig_mod \<Rightarrow>
                      if \<not> truthy elig_mod
                      then Inl (RuntimeError ''eligibilityModule not found in response'')
                      else
                 (case get elig_mod ''eligibilityCriteria'' JNull of
                    Inl e \<Rightarrow> Inl e
                  | Inr html \<Rightarrow>
                      if \<not> truthy html
                      then Inl (RuntimeError ''eligibilityCriteria missing/empty'')
                      else Inr (py_str repr html))))))))"

definition MAX_RETRIES :: nat where
  "MAX_RETRIES = 3"

text \<open>
  The state of \<open>fetch_eligibility_html\<close>: the last exception, the arguments of the calls of
  \<open>time.sleep\<close> so far (in seconds, as exact numbers), and the number of requests sent.
\<close>

record fetch_state =
  last_exc :: "exn option"
  slept :: "real list"
  requests :: nat

text \<open>
  The loop \<open>for attempt in range(1, MAX_RETRIES + 1)\<close> on the attempt numbers still to
  run; \<open>net attempt\<close> is what the network gives to the call of that attempt.
\<close>

fun fetch_loop ::
    "(json \<Rightarrow> string) \<Rightarrow> (nat \<Rightarrow> response) \<Rightarrow> nat list \<Rightarrow> fetch_state \<Rightarrow>
     string option \<times> fetch_state" where
  "fetch_loop repr net [] st = (None, st)"
| "fetch_loop repr net (attempt # rest) st =
     (case attempt_body repr (net attempt) of
        Inr html \<Rightarrow> (Some html, st\<lparr>requests := requests st + 1\<rparr>)
      | Inl e \<Rightarrow>
          fetch_loop repr net rest
            (st\<lparr>last_exc := Some e, slept := slept st @ [0.8 * real attempt],
                requests := requests st + 1\<rparr>))"

definition fetch_eligibility_html ::
    "(json \<Rightarrow> string) \<Rightarrow> (nat \<Rightarrow> response) \<Rightarrow> string option \<times> fetch_state" where
  "fetch_eligibility_html repr net =
     fetch_loop repr net [1..<MAX_RETRIES + 1] \<lparr>last_exc = None, slept = [], requests = 0\<rparr>"

section \<open>The comparator of \<open>batch_compare_ncts.py\<close>\<close>

text \<open>\<open>str.lower()\<close>, for code points below 256.\<close>

definition lower_char :: "char \<Rightarrow> char" where
  "lower_char c =
     (let n = (of_char c :: nat)
      in if (65 \<le> n \<and> n \<le> 90) \<or> (192 \<le> n \<and> n \<le> 222 \<and> n \<noteq> 215) then char_of (n + 32)
         else c)"

definition lower :: "string \<Rightarrow> string" where
  "lower s = map lower_char s"

text \<open>
  \<open>r["statement"].strip().lower()\<close> on a record, a dictionary: a missing key raises
  \<open>KeyError\<close>, a value that is not a string has no \<open>strip\<close>.
\<close>

definition statement_key :: "pydict \<Rightarrow> exn + string" where
  "statement_key r =
     (case map_of r ''statement'' of
        None \<Rightarrow> Inl (KeyError ''statement'')
      | Some (JStr s) \<Rightarrow> Inr (lower (strip s))
      | Some _ \<Rightarrow> Inl AttributeError)"

text \<open>The keys of all records in order, or the first exception.\<close>

fun statement_keys :: "pydict list \<Rightarrow> exn + string list" where
  "statement_keys [] = Inr []"
| "statement_keys (r # rs) =
     (case statement_key r of
        Inl e \<Rightarrow> Inl e
      | Inr k \<Rightarrow> (case statement_keys rs of Inl e \<Rightarrow> Inl e | Inr ks \<Rightarrow> Inr (k # ks)))"

text \<open>
  \<open>compare_sets\<close>. A Python set is iterated in an order the language does not fix: the
  parameter \<open>iter\<close> stands for it, and gives the order in which the elements of a set come
  out, the set being handed over as the list of its elements without repetition. The
  dictionaries \<open>site_map\<close> and \<open>json_map\<close> keep the last record of each key.
\<close>

definition compare_sets ::
    "(string list \<Rightarrow> string list) \<Rightarrow> pydict list \<Rightarrow> pydict list \<Rightarrow>
     exn + (int \<times> int \<times> pydict list \<times> pydict list)" where
  "compare_sets iter site_recs json_recs =
     (case statement_keys site_recs of
        Inl e \<Rightarrow> Inl e
      | Inr site_keys \<Rightarrow>
          (case statement_keys json_recs of
             Inl e \<Rightarrow> Inl e
           | Inr json_keys \<Rightarrow>
               (let missing_in_json = iter (filter (\<lambda>k. k \<notin> set json_keys) (remdups site_keys));
                    missing_on_site = iter (filter (\<lambda>k. k \<notin> set site_keys) (remdups json_keys));
                    site_map = map_of (rev (zip site_keys site_recs));
                    json_map = map_of (rev (zip json_keys json_recs));
                    missing_in_json_list = List.map_filter site_map missing_in_json;
                    missing_on_site_list = List.map_filter json_map missing_on_site
                in Inr (int (length site_recs), int (length json_recs),
                        missing_in_json_list, missing_on_site_list))))"

section \<open>One identifier in \<open>batch_compare_ncts.py\<close>\<close>

text \<open>The three forms of the \<open>status\<close> string: \<open>ok\<close>, \<open>fetch_failed\<close> and \<open>error: ...\<close>.\<close>

datatype task_status = Ok | Fetch_failed | Error exn

record summary =
  nctId :: string
  status :: task_status
  site_docs :: int
  json_docs :: int
  missing_in_json :: int
  missing_on_site :: int
  site_records :: "pydict list option"

text \<open>
  The functions imported from \<open>compare_single_nct\<close>, whose code is not part of the
  sources at hand, are parameters: each yields its result or the exception it raises.
  \<open>extract_all_content_from_section\<close> stands for the first component of its result.
\<close>

record extractors =
  fetch_via_api :: "string \<Rightarrow> exn + tag option"
  fetch_page :: "string \<Rightarrow> exn + tag option"
  find_section :: "tag \<Rightarrow> exn + tag option"
  extract_all_content_from_section :: "tag \<Rightarrow> string \<Rightarrow> exn + pydict list"

text \<open>One element of \<open>normalized_site_recs\<close>, lines 88 to 97.\<close>

definition normalized_site_rec :: "string \<Rightarrow> pydict \<Rightarrow> exn + pydict" where
  "normalized_site_rec nct_id r =
     (case map_of r ''statement'' of
        Some (JStr s) \<Rightarrow>
          Inr [(''nctId'', case map_of r ''nctId'' of None \<Rightarrow> JStr nct_id | Some v \<Rightarrow> v),
               (''statement'', JStr (strip s)),
               (''type'', case map_of r ''type'' of None \<Rightarrow> JStr [] | Some v \<Rightarrow> v),
               (''tags'', JObj [])]
      | _ \<Rightarrow> Inl AttributeError)"

fun normalized_site_recs :: "string \<Rightarrow> pydict list \<Rightarrow> exn + pydict list" where
  "normalized_site_recs nct_id [] = Inr []"
| "normalized_site_recs nct_id (r # rs) =
     (if \<not> (case map_of r ''statement'' of None \<Rightarrow> False | Some v \<Rightarrow> truthy v)
      then normalized_site_recs nct_id rs
      else
        (case normalized_site_rec nct_id r of
           Inl e \<Rightarrow> Inl e
         | Inr x \<Rightarrow>
             (case normalized_site_recs nct_id rs of
                Inl e \<Rightarrow> Inl e
              | Inr xs \<Rightarrow> Inr (x # xs))))"

text \<open>
  \<open>process_single\<close>, with \<open>save_details\<close> false (the default): the result dictionary, or
  the exception that leaves the function.
\<close>

definition process_single ::
    "extractors \<Rightarrow> (string list \<Rightarrow> string list) \<Rightarrow> string \<Rightarrow> pydict list \<Rightarrow> bool \<Rightarrow>
     exn + summary" where
  "process_single ex iter nct_id json_data include_site_records =
     (let json_recs = filter (\<lambda>r. map_of r ''nctId'' = Some (JStr nct_id)) json_data in
      case fetch_via_api ex nct_id of
        Inl e \<Rightarrow> Inl e
      | Inr soup0 \<Rightarrow>
      (case (if soup0 = None then fetch_page ex nct_id else Inr soup0) of
        Inl e \<Rightarrow> Inl e
      | Inr None \<Rightarrow>
          Inr \<lparr>nctId = nct_id, status = Fetch_failed, site_docs = 0,
               json_docs = int (length json_recs), missing_in_json = 0, missing_on_site = 0,
               site_records = None\<rparr>
      | Inr (Some soup) \<Rightarrow>
      (case find_section ex soup of
        Inl e \<Rightarrow> Inl e
      | Inr found \<Rightarrow>
      (case extract_all_content_from_section ex
              (case found of None \<Rightarrow> soup | Some sec \<Rightarrow> sec) nct_id of
        Inl e \<Rightarrow> Inl e
      | Inr site_recs \<Rightarrow>
      (case normalized_site_recs nct_id site_recs of
        Inl e \<Rightarrow> Inl e
      | Inr normalized \<Rightarrow>
      (case compare_sets iter site_recs json_recs of
        Inl e \<Rightarrow> Inl e
      | Inr (site_count, json_count, missing_in_json_list, missing_on_site_list) \<Rightarrow>
          Inr \<lparr>nctId = nct_id, status = Ok, site_docs = site_count, json_docs = json_count,
               missing_in_json = int (length missing_in_json_list),
               missing_on_site = int (length missing_on_site_list),
               site_records = (if include_site_records then Some normalized else None)\<rparr>))))))"

section \<open>The batch loop of \<open>batch_compare_ncts.py\<close>\<close>

text \<open>
  The loop \<open>for future in as_completed(future_map)\<close>, lines 209 to 231, on \<open>results\<close>
  and \<open>combined_site_records\<close>. \<open>task nct\<close> is what \<open>future.result()\<close> gives for the
  future of that identifier: the value returned by the task or the exception it raised. The
  futures come out in the order in which the tasks finish.
\<close>

definition collect_step ::
    "(string \<Rightarrow> exn + summary) \<Rightarrow> pydict list \<Rightarrow> string \<Rightarrow>
     summary list \<times> pydict list \<Rightarrow> summary list \<times> pydict list" where
  "collect_step task json_data nct st =
     (case task nct of
        Inr res \<Rightarrow>
          (fst st @ [res],
           snd st @ (case site_records res of None \<Rightarrow> [] | Some recs \<Rightarrow> recs))
      | Inl e \<Rightarrow>
          (fst st @ [\<lparr>nctId = nct, status = Error e, site_docs = 0,
                      json_docs =
                        int (length (filter (\<lambda>r. map_of r ''nctId'' = Some (JStr nct)) json_data)),
                      missing_in_json = 0, missing_on_site = 0, site_records = None\<rparr>],
           snd st))"

definition collect ::
    "(string \<Rightarrow> exn + summary) \<Rightarrow> pydict list \<Rightarrow> string list \<Rightarrow>
     summary list \<times> pydict list" where
  "collect task json_data completed = fold (collect_step task json_data) completed ([], [])"

text \<open>
  The whole of lines 192 to 241: one task per identifier, as dispatched by \<open>main\<close>, and
  the two lists that are written out, for a given order of completion.
\<close>

definition batch_compare ::
    "extractors \<Rightarrow> (string list \<Rightarrow> string list) \<Rightarrow> pydict list \<Rightarrow> string list \<Rightarrow>
     summary list \<times> pydict list" where
  "batch_compare ex iter json_data completed =
     collect (\<lambda>nct. process_single ex iter nct json_data True) json_data completed"

section \<open>The batch loop of \<open>extract_secondary_outcomes_direct_batch.py\<close>\<close>

text \<open>
  Lines 76 to 92, on \<open>all_outcomes\<close>, \<open>failed_nct_ids\<close> and \<open>processed_count\<close>.
  \<open>task nct\<close> is the list returned by \<open>process_nct_id\<close> (the empty list also stands for
  \<open>None\<close>), or the exception it raised.
\<close>

definition outcomes_step ::
    "(string \<Rightarrow> exn + pydict list) \<Rightarrow> string \<Rightarrow>
     pydict list \<times> string list \<times> int \<Rightarrow> pydict list \<times> string list \<times> int" where
  "outcomes_step task nct_id st =
     (case st of (all_outcomes, failed_nct_ids, processed_count) \<Rightarrow>
        (case task nct_id of
           Inr outcomes \<Rightarrow>
             if outcomes \<noteq> [] then (all_outcomes @ outcomes, failed_nct_ids, processed_count + 1)
             else (all_outcomes, failed_nct_ids @ [nct_id], processed_count + 1)
         | Inl e \<Rightarrow> (all_outcomes, failed_nct_ids @ [nct_id], processed_count + 1)))"

definition outcomes_main ::
    "(string \<Rightarrow> exn + pydict list) \<Rightarrow> string list \<Rightarrow> pydict list \<times> string list \<times> int" where
  "outcomes_main task completed = fold (outcomes_step task) completed ([], [], 0)"

section \<open>Auxiliary notions for the statements\<close>

text \<open>
  The tag structure of an item: the item with every text node removed, at every depth.
\<close>

function skeleton :: "tag \<Rightarrow> tag" and skeleton_list :: "node list \<Rightarrow> node list" where
  "skeleton (Tag n a cs) = Tag n a (skeleton_list cs)"
| "skeleton_list [] = []"
| "skeleton_list (Inl s # cs) = skeleton_list cs"
| "skeleton_list (Inr t # cs) = Inr (skeleton t) # skeleton_list cs"
  by pat_completeness auto
termination
  by (relation "measure (\<lambda>x. case x of Inl t \<Rightarrow> size t
                                   | Inr cs \<Rightarrow> size_list (size_sum (\<lambda>_. 0) size) cs)")
     auto

text \<open>
  The statement text as the specification words it: all descendant text of the item
  concatenated, every run of white space collapsed to one space, the result trimmed.
\<close>

function collapse :: "string \<Rightarrow> string" where
  "collapse [] = []"
| "collapse (c # cs) =
     (if isspace c then CHR '' '' # collapse (dropWhile isspace cs) else c # collapse cs)"
  by pat_completeness auto
termination
  by (relation "measure length") (auto simp: less_Suc_eq_le length_dropWhile_le)

definition spec_item_text :: "tag \<Rightarrow> string" where
  "spec_item_text item = strip (collapse (concat (map snd (only_strings (descendants item)))))"

text \<open>A node is a list node.\<close>

definition list_node :: "node \<Rightarrow> bool" where
  "list_node x = (case x of Inl s \<Rightarrow> False | Inr c \<Rightarrow> ol_ul c)"

text \<open>
  The decoded body of a response that holds the given eligibility module at the path
  \<open>study.protocolSection.eligibilityModule\<close>.
\<close>

definition payload :: "json \<Rightarrow> json" where
  "payload elig_mod =
     JObj [(''study'', JObj [(''protocolSection'', JObj [(''eligibilityModule'', elig_mod)])])]"

text \<open>
  What the batch loops record for one identifier: the entry and the site records of
  \<open>batch_compare_ncts.py\<close>, and the outcomes of
  \<open>extract_secondary_outcomes_direct_batch.py\<close>.
\<close>

definition entry_of :: "(string \<Rightarrow> exn + summary) \<Rightarrow> pydict list \<Rightarrow> string \<Rightarrow> summary" where
  "entry_of task json_data nct =
     (case task nct of
        Inr res \<Rightarrow> res
      | Inl e \<Rightarrow>
          \<lparr>nctId = nct, status = Error e, site_docs = 0,
           json_docs =
             int (length (filter (\<lambda>r. map_of r ''nctId'' = Some (JStr nct)) json_data)),
           missing_in_json = 0, missing_on_site = 0, site_records = None\<rparr>)"

definition records_of :: "(string \<Rightarrow> exn + summary) \<Rightarrow> string \<Rightarrow> pydict list" where
  "records_of task nct =
     (case task nct of
        Inr res \<Rightarrow> (case site_records res of None \<Rightarrow> [] | Some recs \<Rightarrow> recs)
      | Inl e \<Rightarrow> [])"

definition outcomes_of :: "(string \<Rightarrow> exn + pydict list) \<Rightarrow> string \<Rightarrow> pydict list" where
  "outcomes_of task nct_id = (case task nct_id of Inr outcomes \<Rightarrow> outcomes | Inl e \<Rightarrow> [])"

section \<open>Sample documents\<close>

text \<open>
  An ordered list with three items: plain text with two inner spaces, white space only,
  and text followed by a nested unordered list.
\<close>

definition sample_list :: tag where
  "sample_list =
     Tag ''ol'' []
       [Inr (Tag ''li'' [] [Inl '' a  b '']),
        Inl ''x'',
        Inr (Tag ''li'' [] [Inl ''  '']),
        Inr (Tag ''li'' [] [Inl ''c'', Inr (Tag ''ul'' [] [Inr (Tag ''li'' [] [Inl ''d''])])])]"

text \<open>
  Criteria sections for the locators: a heading followed by a list together with the
  dedicated container of the same section; the dedicated container alone; a list, then a
  heading followed by a second list; two lists and no heading; one list and no heading.
\<close>

definition doc_heading_and_container :: tag where
  "doc_heading_and_container =
     Tag ''div'' [(''id'', ''participation-criteria'')]
       [Inr (Tag ''p'' [] [Inl ''Inclusion Criteria'']),
        Inr (Tag ''ol'' [] [Inr (Tag ''li'' [] [Inl ''a''])]),
        Inr (Tag ''div'' [(''id'', ''eligibility-criteria-inclusion'')]
              [Inr (Tag ''ul'' [] [Inr (Tag ''li'' [] [Inl ''b''])])])]"

definition doc_container_only :: tag where
  "doc_container_only =
     Tag ''div'' [(''id'', ''participation-criteria'')]
       [Inr (Tag ''div'' [(''id'', ''eligibility-criteria-inclusion'')]
              [Inr (Tag ''ul'' [] [Inr (Tag ''li'' [] [Inl ''b''])])])]"



definition doc_one_list :: tag where
  "doc_one_list =
     Tag ''div'' []
       [Inr (Tag ''p'' [] [Inl ''Criteria'']),
        Inr (Tag ''ul'' [] [Inr (Tag ''li'' [] [Inl ''a''])])]"

text \<open>
  A criteria section whose only list stands outside the preferred container: the
  description container holds a paragraph, and the list follows the container.
\<close>

definition doc_list_outside_scope :: tag where
  "doc_list_outside_scope =
     Tag ''div'' [(''id'', ''participation-criteria'')]
       [Inr (Tag ''div'' [(''id'', ''eligibility-criteria-description'')]
              [Inr (Tag ''p'' [] [Inl ''Adults only''])]),
        Inr (Tag ''ul'' [] [Inr (Tag ''li'' [] [Inl ''a''])])]"

text \<open>Two collections of statement records for one identifier.\<close>

definition site_sample :: "pydict list" where
  "site_sample =
     [[(''nctId'', JStr ''NCT1''), (''statement'', JStr '' Age > 18 '')],
      [(''nctId'', JStr ''NCT1''), (''statement'', JStr ''No cancer'')]]"

definition json_sample :: "pydict list" where
  "json_sample =
     [[(''nctId'', JStr ''NCT1''), (''statement'', JStr ''age > 18'')],
      [(''nctId'', JStr ''NCT1''), (''statement'', JStr ''Pregnant'')]]"

text \<open>
  A network that always answers with an empty \<open>eligibilityCriteria\<close> field, one that
  fails except at the second attempt, and extractors for which both fetch strategies find
  no page.
\<close>

definition net_empty_field :: "nat \<Rightarrow> response" where
  "net_empty_field attempt =
     Response 200 (Some (payload (JObj [(''eligibilityCriteria'', JStr [])])))"

definition net_second_try :: "nat \<Rightarrow> response" where
  "net_second_try attempt =
     (if attempt = 2
      then Response 200 (Some (payload (JObj [(''eligibilityCriteria'', JStr ''<ol></ol>'')])))
      else Failed)"

definition no_pages :: extractors where
  "no_pages =
     \<lparr>fetch_via_api = (\<lambda>nct_id. Inr None), fetch_page = (\<lambda>nct_id. Inr None),
      find_section = (\<lambda>soup. Inr None),
      extract_all_content_from_section = (\<lambda>section nct_id. Inr [])\<rparr>"

text \<open>
  A page whose criteria section is the first sample section; a loader that fails for
  \<open>NCT1\<close>; extractors whose first strategy raises for \<open>NCT1\<close> and finds no page for
  \<open>NCT2\<close>; a secondary-outcome task that raises for \<open>NCT1\<close> and finds nothing for
  \<open>NCT2\<close>.
\<close>

definition sample_page :: tag where
  "sample_page = Tag ''[document]'' [] [Inr doc_heading_and_container]"

definition sample_load :: "string \<Rightarrow> exn + tag" where
  "sample_load nct_id =
     (if nct_id = ''NCT1'' then Inl (OtherError ''timeout'') else Inr sample_page)"

definition sample_extractors :: extractors where
  "sample_extractors =
     \<lparr>fetch_via_api = (\<lambda>nct_id. if nct_id = ''NCT1'' then Inl (OtherError ''connection reset'')
                                 else if nct_id = ''NCT2'' then Inr None
                                 else Inr (Some sample_page)),
      fetch_page = (\<lambda>nct_id. Inr None),
      find_section = (\<lambda>soup. Inr None),
      extract_all_content_from_section = (\<lambda>section nct_id. Inr site_sample)\<rparr>"

definition sample_outcomes :: "string \<Rightarrow> exn + pydict list" where
  "sample_outcomes nct_id =
     (if nct_id = ''NCT1'' then Inl (OtherError ''timeout'')
      else if nct_id = ''NCT2'' then Inr []
      else Inr [[(''nctId'', JStr nct_id), (''measure'', JStr ''Overall survival'')]])"

section \<open>Properties of the classifier\<close>

lemma analyze_item_cases:
  "item_text i = [] \<Longrightarrow> analyze_item ct i res = res"
  "item_text i \<noteq> [] \<Longrightarrow> has_sub i \<Longrightarrow>
     analyze_item ct i res =
       res\<lparr>incorrect := incorrect res @ [mk_statement ct i],
           incorrect_count := incorrect_count res + 1\<rparr>"
  "item_text i \<noteq> [] \<Longrightarrow> \<not> has_sub i \<Longrightarrow>
     analyze_item ct i res =
       res\<lparr>correct := correct res @ [mk_statement ct i],
           correct_count := correct_count res + 1\<rparr>"
  by (simp_all add: analyze_item_def mk_statement_def Let_def)

lemma fold_analyze_item:
  "fold (analyze_item ct) items res =
     res\<lparr>correct := correct res @
            map (mk_statement ct) (filter (\<lambda>i. item_text i \<noteq> [] \<and> \<not> has_sub i) items),
         incorrect := incorrect res @
            map (mk_statement ct) (filter (\<lambda>i. item_text i \<noteq> [] \<and> has_sub i) items),
         correct_count := correct_count res +
            int (length (filter (\<lambda>i. item_text i \<noteq> [] \<and> \<not> has_sub i) items)),
         incorrect_count := incorrect_count res +
            int (length (filter (\<lambda>i. item_text i \<noteq> [] \<and> has_sub i) items))\<rparr>"
proof (induction items arbitrary: res)
  case Nil
  show ?case by simp
next
  case (Cons i items)
  consider "item_text i = []" | "item_text i \<noteq> []" "has_sub i" | "item_text i \<noteq> []" "\<not> has_sub i"
    by blast
  then show ?case
  proof cases
    case 1
    then show ?thesis
      by (simp add: Cons.IH analyze_item_cases)
  next
    case 2
    then show ?thesis
      by (simp add: Cons.IH analyze_item_cases)
  next
    case 3
    then show ?thesis
      by (simp add: Cons.IH analyze_item_cases)
  qed
qed

lemma analyze_list_fold:
  "analyze_list list_root ct = fold (analyze_item ct) (enumerated_items list_root) empty_results"
  by (auto simp: analyze_list_def enumerated_items_def resolved_list_def
           split: option.splits prod.splits)

lemma analyze_list_eq:
  "analyze_list list_root ct =
     \<lparr>correct = map (mk_statement ct)
        (filter (\<lambda>i. item_text i \<noteq> [] \<and> \<not> has_sub i) (enumerated_items list_root)),
      incorrect = map (mk_statement ct)
        (filter (\<lambda>i. item_text i \<noteq> [] \<and> has_sub i) (enumerated_items list_root)),
      correct_count = int (length
        (filter (\<lambda>i. item_text i \<noteq> [] \<and> \<not> has_sub i) (enumerated_items list_root))),
      incorrect_count = int (length
        (filter (\<lambda>i. item_text i \<noteq> [] \<and> has_sub i) (enumerated_items list_root)))\<rparr>"
  by (simp add: analyze_list_fold fold_analyze_item empty_results_def)

subsection \<open>Tree traversal\<close>

lemma descendants_paths:
  "\<forall>(p, x) \<in> set (descendants t). p \<noteq> []"
  "\<forall>(p, x) \<in> set (descendants_from i cs). p \<noteq> []"
  by (induction t and i cs rule: descendants_descendants_from.induct) auto

lemma filter_children_from:
  "filter (\<lambda>(p, x). length p = Suc 0) (descendants_from i cs) =
     map (\<lambda>(j, x). ([j], x)) (enumerate i cs)"
proof (induction cs arbitrary: i)
  case Nil
  show ?case by simp
next
  case (Cons c cs)
  show ?case
  proof (cases c)
    case (Inl s)
    then show ?thesis by (simp add: Cons.IH)
  next
    case (Inr t)
    have "filter (\<lambda>(p, x). length p = Suc 0) (map (\<lambda>(p, x). (i # p, x)) (descendants t)) = []"
      using descendants_paths(1) [of t] by (auto simp: filter_empty_conv)
    then show ?thesis using Inr by (simp add: Cons.IH)
  qed
qed

lemma filter_children:
  "filter (\<lambda>(p, x). length p = Suc 0) (descendants t) = children t"
  by (cases t) (simp add: children_def filter_children_from)

lemma only_tags_filter:
  "only_tags (filter (\<lambda>(p, x). Q p) es) = filter (\<lambda>(p, c). Q p) (only_tags es)"
  by (induction es) (auto simp: only_tags_def List.map_filter_def split: sum.splits)

lemma find_all_children:
  "find_all t P False = filter (\<lambda>(p, c). length p = Suc 0) (find_all t P True)"
proof -
  have "find_all t P False =
          filter (\<lambda>(p, c). P c) (only_tags (filter (\<lambda>(p, x). length p = Suc 0) (descendants t)))"
    by (simp only: find_all_def filter_children if_False)
  also have "\<dots> =
          filter (\<lambda>(p, c). P c) (filter (\<lambda>(p, c). length p = Suc 0) (only_tags (descendants t)))"
    by (simp only: only_tags_filter)
  also have "\<dots> = filter (\<lambda>(p, c). length p = Suc 0) (find_all t P True)"
    by (auto simp: find_all_def intro: filter_cong)
  finally show ?thesis .
qed

lemma set_only_tags: "set (only_tags es) = {(p, c). (p, Inr c) \<in> set es}"
  by (induction es) (auto simp: only_tags_def List.map_filter_def split: sum.splits)

lemma set_only_strings: "set (only_strings es) = {(p, s). (p, Inl s) \<in> set es}"
  by (induction es) (auto simp: only_strings_def List.map_filter_def split: sum.splits)

lemma find_tag_None:
  "find_tag t P = None \<longleftrightarrow> (\<forall>p c. (p, Inr c) \<in> set (descendants t) \<longrightarrow> \<not> P c)"
proof -
  have "find_tag t P = None \<longleftrightarrow> find_all t P True = []"
    by (simp add: find_tag_def split: list.splits)
  also have "\<dots> \<longleftrightarrow> (\<forall>(p, c) \<in> set (only_tags (descendants t)). \<not> P c)"
    by (auto simp: find_all_def filter_empty_conv)
  also have "\<dots> \<longleftrightarrow> (\<forall>p c. (p, Inr c) \<in> set (descendants t) \<longrightarrow> \<not> P c)"
    by (auto simp: set_only_tags)
  finally show ?thesis .
qed

lemma snd_shift: "snd \<circ> (\<lambda>(p, x). (i # p, x)) = snd"
  by (auto simp: fun_eq_iff)

lemma snd_descendants_from:
  "map snd (descendants_from i cs) = map snd (descendants_from j cs)"
proof (induction cs arbitrary: i j)
  case Nil
  show ?case by simp
next
  case (Cons a cs)
  show ?case
    using Cons.IH [of "Suc i" "Suc j"] by (cases a) (simp_all add: snd_shift)
qed

lemma has_sub_iff:
  "has_sub item \<longleftrightarrow>
     (\<exists>p c. (p, Inr c) \<in> set (descendants item) \<and> (name c = ''ol'' \<or> name c = ''ul''))"
  by (auto simp: has_sub_def find_tag_None ol_ul_def)

lemma has_sub_list_node: "has_sub item \<longleftrightarrow> list_ex list_node (map snd (descendants item))"
proof -
  have "has_sub item \<longleftrightarrow> (\<exists>p c. (p, Inr c) \<in> set (descendants item) \<and> ol_ul c)"
    by (simp add: has_sub_def find_tag_None)
  also have "\<dots> \<longleftrightarrow> (\<exists>x \<in> set (descendants item). list_node (snd x))"
  proof
    assume "\<exists>p c. (p, Inr c) \<in> set (descendants item) \<and> ol_ul c"
    then obtain p c where pc: "(p, Inr c) \<in> set (descendants item)" "ol_ul c" by blast
    then have "list_node (snd (p, Inr c))" by (simp add: list_node_def)
    with pc(1) show "\<exists>x \<in> set (descendants item). list_node (snd x)"
      by blast
  next
    assume "\<exists>x \<in> set (descendants item). list_node (snd x)"
    then obtain p x where px: "(p, x) \<in> set (descendants item)" "list_node x" by auto
    then obtain c where "x = Inr c" "ol_ul c" by (cases x) (auto simp: list_node_def)
    with px show "\<exists>p c. (p, Inr c) \<in> set (descendants item) \<and> ol_ul c" by blast
  qed
  finally show ?thesis by (simp add: list_ex_iff)
qed

lemma name_skeleton: "name (skeleton t) = name t"
  by (cases t) simp

lemma skeleton_lists:
  "list_ex list_node (map snd (descendants (skeleton t))) =
     list_ex list_node (map snd (descendants t))"
  "list_ex list_node (map snd (descendants_from i (skeleton_list cs))) =
     list_ex list_node (map snd (descendants_from i cs))"
proof (induction t and i cs rule: descendants_descendants_from.induct)
  case (1 n a cs)
  then show ?case by simp
next
  case (2 i)
  then show ?case by simp
next
  case (3 i s cs)
  then show ?case
    using snd_descendants_from [of i "skeleton_list cs" "Suc i"] by (simp add: list_node_def)
next
  case (4 i t cs)
  then show ?case by (simp add: snd_shift list_node_def ol_ul_def name_skeleton)
qed

lemma has_sub_skeleton: "has_sub (skeleton item) = has_sub item"
  by (simp add: has_sub_list_node skeleton_lists(1))

lemma last_strip: "strip s \<noteq> [] \<Longrightarrow> \<not> isspace (last (strip s))"
  by (metis hd_dropWhile hd_rev rev.simps(1) rev_rev_ident strip_def)

lemma hd_strip: "strip s \<noteq> [] \<Longrightarrow> \<not> isspace (hd (strip s))"
  by (metis dropWhile_eq_Cons_conv dropWhile_eq_self_iff hd_Cons_tl
    last_appendR last_rev rev.simps(1) rev_swap strip_def)

lemma hd_join: "xs \<noteq> [] \<Longrightarrow> hd xs \<noteq> [] \<Longrightarrow> hd (join sep xs) = hd (hd xs)"
  by (induction sep xs rule: join.induct) auto

lemma join_not_Nil: "xs \<noteq> [] \<Longrightarrow> last xs \<noteq> [] \<Longrightarrow> join sep xs \<noteq> []"
  by (induction sep xs rule: join.induct) auto

lemma last_join: "xs \<noteq> [] \<Longrightarrow> last xs \<noteq> [] \<Longrightarrow> last (join sep xs) = last (last xs)"
proof (induction sep xs rule: join.induct)
  case (1 sep)
  then show ?case by simp
next
  case (2 sep x)
  then show ?case by simp
next
  case (3 sep x y ys)
  then have "join sep (y # ys) \<noteq> []" using join_not_Nil [of "y # ys" sep] by simp
  with 3 show ?case by simp
qed

lemma enumerated_items_eq:
  "enumerated_items list_root =
     (case resolved_list list_root of
        None \<Rightarrow> []
      | Some l \<Rightarrow>
          map snd (filter (\<lambda>(p, c). length p = 1 \<and> name c = ''li'') (only_tags (descendants l))))"
proof -
  have "top_items l =
      map snd (filter (\<lambda>(p, c). length p = 1 \<and> name c = ''li'') (only_tags (descendants l)))" for l
  proof -
    have "find_all l li False =
        filter (\<lambda>(p, c). length p = Suc 0) (filter (\<lambda>(p, c). li c) (only_tags (descendants l)))"
      by (simp add: find_all_children) (simp add: find_all_def)
    also have "\<dots> = filter (\<lambda>(p, c). length p = 1 \<and> name c = ''li'') (only_tags (descendants l))"
      by (auto simp: li_def intro: filter_cong)
    finally show ?thesis by (simp add: top_items_def)
  qed
  then show ?thesis by (simp add: enumerated_items_def split: option.splits)
qed

lemma stripped_strings_props:
  "\<forall>s \<in> set (stripped_strings item). s \<noteq> [] \<and> \<not> isspace (hd s) \<and> \<not> isspace (last s)"
  by (auto simp: stripped_strings_def hd_strip last_strip)

lemma item_text_trimmed:
  assumes "item_text item \<noteq> []"
  shows "\<not> isspace (hd (item_text item)) \<and> \<not> isspace (last (item_text item))"
proof -
  let ?xs = "stripped_strings item"
  from assms have ne: "?xs \<noteq> []" by (auto simp: item_text_def)
  then have "hd ?xs \<in> set ?xs" "last ?xs \<in> set ?xs" by simp_all
  then have h: "hd ?xs \<noteq> []" "\<not> isspace (hd (hd ?xs))" "last ?xs \<noteq> []" "\<not> isspace (last (last ?xs))"
    using stripped_strings_props [of item] by blast+
  show ?thesis
    using ne h by (simp add: item_text_def hd_join last_join)
qed

subsection \<open>Counts and records\<close>

lemma length_filter_split:
  "length (filter (\<lambda>i. P i \<and> \<not> Q i) xs) + length (filter (\<lambda>i. P i \<and> Q i) xs) =
     length (filter P xs)"
  by (induction xs) auto

lemma sample_list_result:
  "analyze_list (Some sample_list) ''Inclusion'' =
     \<lparr>correct = [\<lparr>stmt_text = ''a  b'', stmt_type = ''Inclusion'', has_sub_bullet = False\<rparr>],
      incorrect = [\<lparr>stmt_text = ''c d'', stmt_type = ''Inclusion'', has_sub_bullet = True\<rparr>],
      correct_count = 1, incorrect_count = 1\<rparr>"
  by code_simp

lemma sample_list_items:
  "enumerated_items (Some sample_list) =
     [Tag ''li'' [] [Inl '' a  b ''], Tag ''li'' [] [Inl ''  ''],
      Tag ''li'' [] [Inl ''c'', Inr (Tag ''ul'' [] [Inr (Tag ''li'' [] [Inl ''d''])])]]"
  by code_simp

text \<open>
  C5. For every run of the classifier on a section root: an item whose text is empty
  leaves the result as it is, so it adds to neither count; no record has an empty text;
  each count is the length of its list of records, so the two counts add up to the number
  of records produced; and that number is the number of enumerated items with a text that
  is not empty.
\<close>

theorem analyze_list_counts:
  "(\<forall>i res. item_text i = [] \<longrightarrow> analyze_item ct i res = res) \<and>
   (\<forall>s \<in> set (correct (analyze_list list_root ct) @ incorrect (analyze_list list_root ct)).
      stmt_text s \<noteq> []) \<and>
   correct_count (analyze_list list_root ct) = int (length (correct (analyze_list list_root ct))) \<and>
   incorrect_count (analyze_list list_root ct) =
     int (length (incorrect (analyze_list list_root ct))) \<and>
   correct_count (analyze_list list_root ct) + incorrect_count (analyze_list list_root ct) =
     int (length (correct (analyze_list list_root ct) @ incorrect (analyze_list list_root ct))) \<and>
   length (correct (analyze_list list_root ct) @ incorrect (analyze_list list_root ct)) =
     length (filter (\<lambda>i. item_text i \<noteq> []) (enumerated_items list_root))"
proof -
  let ?items = "enumerated_items list_root"
  have len: "length (filter (\<lambda>i. item_text i \<noteq> [] \<and> \<not> has_sub i) ?items) +
        length (filter (\<lambda>i. item_text i \<noteq> [] \<and> has_sub i) ?items) =
        length (filter (\<lambda>i. item_text i \<noteq> []) ?items)"
    by (rule length_filter_split)
  have skip: "\<forall>i res. item_text i = [] \<longrightarrow> analyze_item ct i res = res"
    by (simp add: analyze_item_cases(1))
  have texts: "\<forall>s \<in> set (correct (analyze_list list_root ct) @ incorrect (analyze_list list_root ct)).
      stmt_text s \<noteq> []"
    by (auto simp: analyze_list_eq mk_statement_def)
  show ?thesis
    using len skip texts by (simp add: analyze_list_eq)
qed

theorem analyze_list_counts_witness:
  "item_text (Tag ''li'' [] [Inl ''  '']) = [] \<and>
   analyze_item ''Inclusion'' (Tag ''li'' [] [Inl ''  '']) empty_results = empty_results \<and>
   \<lparr>stmt_text = ''a  b'', stmt_type = ''Inclusion'', has_sub_bullet = False\<rparr>
     \<in> set (correct (analyze_list (Some sample_list) ''Inclusion'')
            @ incorrect (analyze_list (Some sample_list) ''Inclusion'')) \<and>
   correct_count (analyze_list (Some sample_list) ''Inclusion'')
     + incorrect_count (analyze_list (Some sample_list) ''Inclusion'') = 2 \<and>
   length (enumerated_items (Some sample_list)) = 3"
proof -
  have e: "item_text (Tag ''li'' [] [Inl ''  '']) = []"
    by code_simp
  show ?thesis
    using analyze_list_counts [of "''Inclusion''" "Some sample_list"] e
    by (simp add: sample_list_result sample_list_items)
qed

subsection \<open>Items, flags and texts\<close>

text \<open>
  C3. For every section root, the items the classifier enumerates are the tags named
  \<open>li\<close> at depth one below the resolved list, in document order (an item of a nested
  list is not among them); the records are made from these items in that order (those
  with an empty text produce none), the ones without a nested list in \<open>correct\<close> and the
  ones with a nested list in \<open>incorrect\<close>; the flag of a record is true exactly when some
  tag below the item, at any depth, is named \<open>ol\<close> or \<open>ul\<close>; and the flag is the same for
  the item with all its text removed, so it depends on the tag structure only.
\<close>

theorem classifier_items_and_flags:
  "enumerated_items list_root =
     (case resolved_list list_root of
        None \<Rightarrow> []
      | Some l \<Rightarrow>
          map snd (filter (\<lambda>(p, c). length p = 1 \<and> name c = ''li'') (only_tags (descendants l)))) \<and>
   correct (analyze_list list_root ct) =
     map (mk_statement ct)
       (filter (\<lambda>i. item_text i \<noteq> [] \<and> \<not> has_sub i) (enumerated_items list_root)) \<and>
   incorrect (analyze_list list_root ct) =
     map (mk_statement ct)
       (filter (\<lambda>i. item_text i \<noteq> [] \<and> has_sub i) (enumerated_items list_root)) \<and>
   (\<forall>i. has_sub_bullet (mk_statement ct i) =
      (\<exists>p c. (p, Inr c) \<in> set (descendants i) \<and> (name c = ''ol'' \<or> name c = ''ul''))) \<and>
   (\<forall>i. has_sub_bullet (mk_statement ct (skeleton i)) = has_sub_bullet (mk_statement ct i))"
proof -
  have flags: "has_sub_bullet (mk_statement ct i) = has_sub i" for i
    by (simp add: mk_statement_def)
  show ?thesis
    using enumerated_items_eq [of list_root]
    by (simp add: analyze_list_eq flags has_sub_skeleton has_sub_iff [symmetric])
qed


theorem classifier_items_and_flags_witness:
  "enumerated_items (Some sample_list) =
     [Tag ''li'' [] [Inl '' a  b ''], Tag ''li'' [] [Inl ''  ''],
      Tag ''li'' [] [Inl ''c'', Inr (Tag ''ul'' [] [Inr (Tag ''li'' [] [Inl ''d''])])]] \<and>
   map has_sub_bullet (correct (analyze_list (Some sample_list) ''Inclusion'')) = [False] \<and>
   map has_sub_bullet (incorrect (analyze_list (Some sample_list) ''Inclusion'')) = [True]"
proof -
  have e: "enumerated_items (Some sample_list) =
     [Tag ''li'' [] [Inl '' a  b ''], Tag ''li'' [] [Inl ''  ''],
      Tag ''li'' [] [Inl ''c'', Inr (Tag ''ul'' [] [Inr (Tag ''li'' [] [Inl ''d''])])]] \<and>
   map has_sub_bullet (correct (analyze_list (Some sample_list) ''Inclusion'')) = [False] \<and>
   map has_sub_bullet (incorrect (analyze_list (Some sample_list) ''Inclusion'')) = [True]"
    by (simp add: sample_list_result sample_list_items)
  show ?thesis
    using classifier_items_and_flags [of "Some sample_list" "''Inclusion''"] by - (rule e)
qed

text \<open>
  C4, as the claim states it, fails: the text of the first item of the sample list keeps
  the two spaces between \<open>a\<close> and \<open>b\<close>, where the text the specification describes has
  one.
\<close>

theorem statement_text_counterexample:
  "map stmt_text (correct (analyze_list (Some sample_list) ''Inclusion'')) = [''a  b''] \<and>
   hd (enumerated_items (Some sample_list)) = Tag ''li'' [] [Inl '' a  b ''] \<and>
   spec_item_text (Tag ''li'' [] [Inl '' a  b '']) = ''a b''"
proof -
  have "spec_item_text (Tag ''li'' [] [Inl '' a  b '']) = ''a b''"
    by code_simp
  then show ?thesis
    by (simp add: sample_list_result sample_list_items)
qed

text \<open>
  C4, amended. For every enumerated item that yields a record, the text of the record is
  made of the strings below the item in document order, at any depth (text inside nested
  lists included): each string is trimmed, the ones that are empty after trimming are left
  out, and the rest are joined by one space. White space inside a string is kept as it is.
  The text has no white space at its start or its end.
\<close>

theorem statement_text_joined:
  "map stmt_text (correct (analyze_list list_root ct)) =
     map (\<lambda>item. join '' '' (filter (\<lambda>x. x \<noteq> [])
                     (map (\<lambda>(p, x). strip x) (only_strings (descendants item)))))
       (filter (\<lambda>i. item_text i \<noteq> [] \<and> \<not> has_sub i) (enumerated_items list_root)) \<and>
   map stmt_text (incorrect (analyze_list list_root ct)) =
     map (\<lambda>item. join '' '' (filter (\<lambda>x. x \<noteq> [])
                     (map (\<lambda>(p, x). strip x) (only_strings (descendants item)))))
       (filter (\<lambda>i. item_text i \<noteq> [] \<and> has_sub i) (enumerated_items list_root)) \<and>
   (\<forall>s \<in> set (correct (analyze_list list_root ct) @ incorrect (analyze_list list_root ct)).
      \<not> isspace (hd (stmt_text s)) \<and> \<not> isspace (last (stmt_text s))) \<and>
   (\<forall>item p x. (p, Inl x) \<in> set (descendants item) \<and> strip x \<noteq> [] \<longrightarrow>
      strip x \<in> set (stripped_strings item))"
proof -
  have texts: "stmt_text \<circ> mk_statement ct =
      (\<lambda>item. join '' '' (filter (\<lambda>x. x \<noteq> [])
                 (map (\<lambda>(p, x). strip x) (only_strings (descendants item)))))"
    by (simp add: fun_eq_iff mk_statement_def item_text_def stripped_strings_def)
  have trimmed: "\<forall>s \<in> set (correct (analyze_list list_root ct) @ incorrect (analyze_list list_root ct)).
      \<not> isspace (hd (stmt_text s)) \<and> \<not> isspace (last (stmt_text s))"
    using item_text_trimmed by (auto simp: analyze_list_eq mk_statement_def)
  have nested: "\<forall>item p x. (p, Inl x) \<in> set (descendants item) \<and> strip x \<noteq> [] \<longrightarrow>
      strip x \<in> set (stripped_strings item)"
    by (force simp: stripped_strings_def set_only_strings)
  show ?thesis
    using trimmed nested by (simp add: analyze_list_eq texts)
qed

theorem statement_text_joined_witness:
  "map stmt_text (incorrect (analyze_list (Some sample_list) ''Inclusion'')) = [''c d''] \<and>
   ([1, 0, 0], Inl ''d'')
     \<in> set (descendants (Tag ''li'' [] [Inl ''c'', Inr (Tag ''ul'' [] [Inr (Tag ''li'' [] [Inl ''d''])])])) \<and>
   strip ''d'' \<noteq> [] \<and>
   strip ''d''
     \<in> set (stripped_strings
              (Tag ''li'' [] [Inl ''c'', Inr (Tag ''ul'' [] [Inr (Tag ''li'' [] [Inl ''d''])])])) \<and>
   \<lparr>stmt_text = ''a  b'', stmt_type = ''Inclusion'', has_sub_bullet = False\<rparr>
     \<in> set (correct (analyze_list (Some sample_list) ''Inclusion'')
            @ incorrect (analyze_list (Some sample_list) ''Inclusion'')) \<and>
   \<not> isspace (hd ''a  b'') \<and> \<not> isspace (last ''a  b'')"
proof -
  have d: "([1, 0, 0], Inl ''d'')
      \<in> set (descendants (Tag ''li'' [] [Inl ''c'', Inr (Tag ''ul'' [] [Inr (Tag ''li'' [] [Inl ''d''])])]))"
    by simp
  have s: "strip ''d'' \<noteq> []"
    by code_simp
  have t: "strip ''d''
      \<in> set (stripped_strings
               (Tag ''li'' [] [Inl ''c'', Inr (Tag ''ul'' [] [Inr (Tag ''li'' [] [Inl ''d''])])]))"
    using statement_text_joined [of "Some sample_list" "''Inclusion''"] d s by blast
  have h: "\<not> isspace (hd ''a  b'') \<and> \<not> isspace (last ''a  b'')"
    by code_simp
  show ?thesis
    using d s t h by (simp add: sample_list_result)
qed

section \<open>Properties of the locators\<close>








lemma last_resort_None:
  "last_resort ls None None =
     (case ls of [] \<Rightarrow> (None, None) | [l] \<Rightarrow> (Some l, None) | l # l' # _ \<Rightarrow> (Some l, Some l'))"
  by (auto simp: last_resort_def split: list.splits)

lemma last_resort_keeps:
  "fst (last_resort ls (Some a) e) = Some a"
  "snd (last_resort ls i (Some b)) = Some b"
  by (auto simp: last_resort_def)

lemma last_resort_fst:
  "fst (last_resort ls None e) = (case ls of [] \<Rightarrow> None | l # _ \<Rightarrow> Some l)"
  by (auto simp: last_resort_def split: list.splits)

lemma last_resort_snd:
  "snd (last_resort ls i None) = (case ls of l # l' # _ \<Rightarrow> Some l' | _ \<Rightarrow> None)"
  by (auto simp: last_resort_def split: list.splits)

text \<open>
  C1, as the claim states it, fails: in \<open>find_inclusion_exclusion_lists\<close> the heading scan
  comes first. In the sample section that has both a heading followed by a list and the
  dedicated Inclusion container, the container would give the list at position 2, 0, and the
  locator returns the list after the heading, at position 1.
\<close>

theorem tier_order_counterexample:
  "older_structure doc_heading_and_container ''eligibility-criteria-inclusion'' =
     Some ([2, 0], Tag ''ul'' [] [Inr (Tag ''li'' [] [Inl ''b''])]) \<and>
   fst (find_inclusion_exclusion_lists doc_heading_and_container) =
     Some ([1], Tag ''ol'' [] [Inr (Tag ''li'' [] [Inl ''a''])])"
  by code_simp

text \<open>
  C1, amended. The locator evaluates its tiers in order for each section and stops at the
  first that matches: first the heading scan in the preferred scope; the dedicated
  container of the section is consulted only when the heading scan found nothing, and the
  positional fallback only when both found nothing. When the heading scan finds nothing for
  a section and its dedicated container is present, the result for the section is the
  container's first descendant list, or the container itself when it has none.
\<close>

theorem locator_tier_order:
  "(find_list_after_heading cs (search_root cs) ''inclusion'' = Some h \<longrightarrow>
      fst (find_inclusion_exclusion_lists cs) = Some h) \<and>
   (find_list_after_heading cs (search_root cs) ''inclusion'' = None \<and>
    older_structure cs ''eligibility-criteria-inclusion'' = Some r \<longrightarrow>
      fst (find_inclusion_exclusion_lists cs) = Some r) \<and>
   (find_list_after_heading cs (search_root cs) ''inclusion'' = None \<and>
    older_structure cs ''eligibility-criteria-inclusion'' = None \<longrightarrow>
      fst (find_inclusion_exclusion_lists cs) =
        (case lists_of cs of [] \<Rightarrow> None | l # _ \<Rightarrow> Some l)) \<and>
   (find_list_after_heading cs (search_root cs) ''exclusion'' = Some h \<longrightarrow>
      snd (find_inclusion_exclusion_lists cs) = Some h) \<and>
   (find_list_after_heading cs (search_root cs) ''exclusion'' = None \<and>
    older_structure cs ''eligibility-criteria-exclusion'' = Some r \<longrightarrow>
      snd (find_inclusion_exclusion_lists cs) = Some r) \<and>
   (find_list_after_heading cs (search_root cs) ''exclusion'' = None \<and>
    older_structure cs ''eligibility-criteria-exclusion'' = None \<longrightarrow>
      snd (find_inclusion_exclusion_lists cs) =
        (case lists_of cs of l # l' # _ \<Rightarrow> Some l' | _ \<Rightarrow> None)) \<and>
   (find_tag cs (tag_id ''div'' v) = Some d \<longrightarrow>
      older_structure cs v =
        Some (case find_tag (snd d) ol_ul of Some l \<Rightarrow> below (fst d) l | None \<Rightarrow> d))"
  by (auto simp: find_inclusion_exclusion_lists_def before_last_resort_def Let_def
        last_resort_keeps last_resort_fst last_resort_snd older_structure_def
      split: option.splits)

theorem locator_tier_order_witness:
  "find_list_after_heading doc_container_only (search_root doc_container_only) ''inclusion'' = None \<and>
   older_structure doc_container_only ''eligibility-criteria-inclusion'' =
     Some ([0, 0], Tag ''ul'' [] [Inr (Tag ''li'' [] [Inl ''b''])]) \<and>
   fst (find_inclusion_exclusion_lists doc_container_only) =
     Some ([0, 0], Tag ''ul'' [] [Inr (Tag ''li'' [] [Inl ''b''])]) \<and>
   find_list_after_heading doc_heading_and_container (search_root doc_heading_and_container)
     ''inclusion'' = Some ([1], Tag ''ol'' [] [Inr (Tag ''li'' [] [Inl ''a''])]) \<and>
   fst (find_inclusion_exclusion_lists doc_heading_and_container) =
     Some ([1], Tag ''ol'' [] [Inr (Tag ''li'' [] [Inl ''a''])])"
proof -
  have a: "find_list_after_heading doc_container_only (search_root doc_container_only)
      ''inclusion'' = None"
    by code_simp
  have b: "older_structure doc_container_only ''eligibility-criteria-inclusion'' =
      Some ([0, 0], Tag ''ul'' [] [Inr (Tag ''li'' [] [Inl ''b''])])"
    by code_simp
  have c: "find_list_after_heading doc_heading_and_container
      (search_root doc_heading_and_container) ''inclusion'' =
      Some ([1], Tag ''ol'' [] [Inr (Tag ''li'' [] [Inl ''a''])])"
    by code_simp
  show ?thesis
    using a b c
      locator_tier_order [of doc_container_only _ "([0, 0], Tag ''ul'' [] [Inr (Tag ''li'' [] [Inl ''b''])])"]
      locator_tier_order [of doc_heading_and_container "([1], Tag ''ol'' [] [Inr (Tag ''li'' [] [Inl ''a''])])"]
    by blast
qed




lemma below_Nil: "map (below []) es = es"
  by (induction es) (simp_all add: below_def)

text \<open>
  C10, as the claim states it, fails for \<open>find_inclusion_exclusion_lists\<close>: the
  positional fallback collects the lists of the search root, which is the description
  container when the section has one. In the sample section whose only list stands after
  the description container, the document holds exactly one list and no earlier tier
  resolves either section, yet the search root holds no list and the locator returns
  nothing for Inclusion.
\<close>

theorem single_list_scope_counterexample:
  "find_all doc_list_outside_scope ol_ul True =
     [([1], Tag ''ul'' [] [Inr (Tag ''li'' [] [Inl ''a''])])] \<and>
   before_last_resort doc_list_outside_scope = (None, None) \<and>
   fst (search_root doc_list_outside_scope) = [0] \<and>
   lists_of doc_list_outside_scope = [] \<and>
   find_inclusion_exclusion_lists doc_list_outside_scope = (None, None)"
  by code_simp

text \<open>
  C10, amended. The scoped region of \<open>find_inclusion_exclusion_lists\<close> is the search root:
  the description container when the criteria section has one, the whole criteria section
  otherwise; the scoped region of \<open>find_inclusion_exclusion_lists_from_html\<close> is the whole
  document. When no tier before the positional fallback resolves either section and the
  scoped region holds exactly one list, the locator returns that list for Inclusion and
  nothing for Exclusion; and whenever Exclusion is unresolved before the fallback and the
  scoped region holds fewer than two lists, Exclusion stays absent.
\<close>

theorem single_list_fallback:
  "(before_last_resort cs = (None, None) \<and> lists_of cs = [l] \<longrightarrow>
      find_inclusion_exclusion_lists cs = (Some l, None)) \<and>
   (snd (before_last_resort cs) = None \<and> length (lists_of cs) < 2 \<longrightarrow>
      snd (find_inclusion_exclusion_lists cs) = None) \<and>
   (find_list_after_heading_api soup ''inclusion'' = None \<and>
    find_list_after_heading_api soup ''exclusion'' = None \<and>
    find_all soup ol_ul True = [l] \<longrightarrow>
      find_inclusion_exclusion_lists_from_html soup = (Some l, None)) \<and>
   (find_list_after_heading_api soup ''exclusion'' = None \<and>
    length (find_all soup ol_ul True) < 2 \<longrightarrow>
      snd (find_inclusion_exclusion_lists_from_html soup) = None) \<and>
   (find_tag cs (tag_id ''div'' ''eligibility-criteria-description'') = None \<longrightarrow>
      lists_of cs = find_all cs ol_ul True) \<and>
   (find_tag cs (tag_id ''div'' ''eligibility-criteria-description'') = Some d \<longrightarrow>
      lists_of cs = map (below (fst d)) (find_all (snd d) ol_ul True))"
proof -
  have scope1: "find_tag cs (tag_id ''div'' ''eligibility-criteria-description'') = None \<longrightarrow>
      lists_of cs = find_all cs ol_ul True"
    by (simp add: lists_of_def search_root_def below_Nil)
  have scope2: "find_tag cs (tag_id ''div'' ''eligibility-criteria-description'') = Some d \<longrightarrow>
      lists_of cs = map (below (fst d)) (find_all (snd d) ol_ul True)"
    by (simp add: lists_of_def search_root_def)
  have fallback:
    "(before_last_resort cs = (None, None) \<and> lists_of cs = [l] \<longrightarrow>
        find_inclusion_exclusion_lists cs = (Some l, None)) \<and>
     (snd (before_last_resort cs) = None \<and> length (lists_of cs) < 2 \<longrightarrow>
        snd (find_inclusion_exclusion_lists cs) = None) \<and>
     (find_list_after_heading_api soup ''inclusion'' = None \<and>
      find_list_after_heading_api soup ''exclusion'' = None \<and>
      find_all soup ol_ul True = [l] \<longrightarrow>
        find_inclusion_exclusion_lists_from_html soup = (Some l, None)) \<and>
     (find_list_after_heading_api soup ''exclusion'' = None \<and>
      length (find_all soup ol_ul True) < 2 \<longrightarrow>
        snd (find_inclusion_exclusion_lists_from_html soup) = None)"
    by (auto simp: find_inclusion_exclusion_lists_def find_inclusion_exclusion_lists_from_html_def
          last_resort_None last_resort_snd split: list.splits)
  show ?thesis
    using scope1 scope2 fallback by blast
qed

theorem single_list_fallback_witness:
  "before_last_resort doc_one_list = (None, None) \<and>
   lists_of doc_one_list = [([1], Tag ''ul'' [] [Inr (Tag ''li'' [] [Inl ''a''])])] \<and>
   find_inclusion_exclusion_lists doc_one_list =
     (Some ([1], Tag ''ul'' [] [Inr (Tag ''li'' [] [Inl ''a''])]), None) \<and>
   find_list_after_heading_api doc_one_list ''inclusion'' = None \<and>
   find_list_after_heading_api doc_one_list ''exclusion'' = None \<and>
   find_all doc_one_list ol_ul True = [([1], Tag ''ul'' [] [Inr (Tag ''li'' [] [Inl ''a''])])] \<and>
   find_inclusion_exclusion_lists_from_html doc_one_list =
     (Some ([1], Tag ''ul'' [] [Inr (Tag ''li'' [] [Inl ''a''])]), None) \<and>
   find_tag doc_one_list (tag_id ''div'' ''eligibility-criteria-description'') = None \<and>
   find_tag doc_list_outside_scope (tag_id ''div'' ''eligibility-criteria-description'') =
     Some ([0], Tag ''div'' [(''id'', ''eligibility-criteria-description'')]
                  [Inr (Tag ''p'' [] [Inl ''Adults only''])]) \<and>
   snd (before_last_resort doc_list_outside_scope) = None \<and>
   length (lists_of doc_list_outside_scope) < 2 \<and>
   snd (find_inclusion_exclusion_lists doc_list_outside_scope) = None"
proof -
  have a: "before_last_resort doc_one_list = (None, None)"
    by code_simp
  have b: "lists_of doc_one_list = [([1], Tag ''ul'' [] [Inr (Tag ''li'' [] [Inl ''a''])])]"
    by code_simp
  have c: "find_list_after_heading_api doc_one_list ''inclusion'' = None"
    by code_simp
  have d: "find_list_after_heading_api doc_one_list ''exclusion'' = None"
    by code_simp
  have e: "find_all doc_one_list ol_ul True = [([1], Tag ''ul'' [] [Inr (Tag ''li'' [] [Inl ''a''])])]"
    by code_simp
  have f: "find_tag doc_one_list (tag_id ''div'' ''eligibility-criteria-description'') = None"
    by code_simp
  have g: "find_tag doc_list_outside_scope (tag_id ''div'' ''eligibility-criteria-description'') =
     Some ([0], Tag ''div'' [(''id'', ''eligibility-criteria-description'')]
                  [Inr (Tag ''p'' [] [Inl ''Adults only''])])"
    by code_simp
  have h: "snd (before_last_resort doc_list_outside_scope) = None"
    by code_simp
  have i: "find_all (Tag ''div'' [(''id'', ''eligibility-criteria-description'')]
      [Inr (Tag ''p'' [] [Inl ''Adults only''])]) ol_ul True = []"
    by code_simp
  have j: "length (lists_of doc_list_outside_scope) < 2"
    using single_list_fallback [where cs = doc_list_outside_scope
        and d = "([0], Tag ''div'' [(''id'', ''eligibility-criteria-description'')]
                  [Inr (Tag ''p'' [] [Inl ''Adults only''])])"] g i
    by simp
  have k: "snd (find_inclusion_exclusion_lists doc_list_outside_scope) = None"
    using single_list_fallback [where cs = doc_list_outside_scope] h j by blast
  show ?thesis
    using a b c d e f g h j k
      single_list_fallback [of doc_one_list "([1], Tag ''ul'' [] [Inr (Tag ''li'' [] [Inl ''a''])])"
        doc_one_list]
    by blast
qed


section \<open>Properties of the comparator\<close>

lemma statement_keys_length: "statement_keys rs = Inr ks \<Longrightarrow> length ks = length rs"
  by (induction rs arbitrary: ks) (auto split: sum.splits)

lemma statement_keys_zip:
  "statement_keys rs = Inr ks \<Longrightarrow> (k, r) \<in> set (zip ks rs) \<Longrightarrow> statement_key r = Inr k"
  by (induction rs arbitrary: ks) (auto split: sum.splits)

lemma statement_keys_member:
  "statement_keys rs = Inr ks \<Longrightarrow> r \<in> set rs \<Longrightarrow> \<exists>k \<in> set ks. statement_key r = Inr k"
  by (induction rs arbitrary: ks) (auto split: sum.splits)

lemma last_map_lookup:
  assumes "statement_keys rs = Inr ks" "k \<in> set ks"
  shows "\<exists>r. map_of (rev (zip ks rs)) k = Some r \<and> r \<in> set rs \<and> statement_key r = Inr k"
proof -
  have len: "length ks = length rs" using assms(1) by (rule statement_keys_length)
  then have "fst ` set (zip ks rs) = set ks"
    by (metis map_fst_zip set_map)
  then have "k \<in> fst ` set (rev (zip ks rs))" using assms(2) by simp
  then obtain r where r: "map_of (rev (zip ks rs)) k = Some r"
    by (metis map_of_eq_None_iff not_Some_eq)
  then have "(k, r) \<in> set (zip ks rs)" by (auto dest: map_of_SomeD)
  then have "r \<in> set rs" "statement_key r = Inr k"
    using assms(1) by (auto dest: set_zip_rightD statement_keys_zip)
  with r show ?thesis by blast
qed

lemma map_filter_lookup:
  assumes "\<forall>k \<in> set xs. \<exists>r. m k = Some r \<and> r \<in> set rs \<and> statement_key r = Inr k"
  shows "statement_keys (List.map_filter m xs) = Inr xs \<and> set (List.map_filter m xs) \<subseteq> set rs"
  using assms by (induction xs) (auto simp: List.map_filter_def)

lemma compare_sets_Inr:
  assumes keys: "statement_keys A = Inr KA" "statement_keys B = Inr KB"
  shows "compare_sets iter A B =
     Inr (int (length A), int (length B),
          List.map_filter (map_of (rev (zip KA A))) (iter (filter (\<lambda>k. k \<notin> set KB) (remdups KA))),
          List.map_filter (map_of (rev (zip KB B))) (iter (filter (\<lambda>k. k \<notin> set KA) (remdups KB))))"
  using keys by (simp add: compare_sets_def Let_def)

lemma missing_list:
  fixes KB :: "string list"
  assumes perm: "\<forall>xs. mset (iter xs) = mset xs"
    and keys: "statement_keys A = Inr KA"
    and ks_def: "ks = iter (filter (\<lambda>k. k \<notin> set KB) (remdups KA))"
  shows "statement_keys (List.map_filter (map_of (rev (zip KA A))) ks) = Inr ks"
    and "set (List.map_filter (map_of (rev (zip KA A))) ks) \<subseteq> set A"
    and "set ks = set KA - set KB"
    and "distinct ks"
proof -
  have m: "mset ks = mset (filter (\<lambda>k. k \<notin> set KB) (remdups KA))"
    using perm by (simp add: ks_def)
  then have "set ks = set (filter (\<lambda>k. k \<notin> set KB) (remdups KA))"
    by (rule mset_eq_setD)
  then show s: "set ks = set KA - set KB" by auto
  have "distinct (filter (\<lambda>k. k \<notin> set KB) (remdups KA))" by simp
  then show "distinct ks" using m by (metis mset_eq_imp_distinct_iff)
  have "\<forall>k \<in> set ks. \<exists>r. map_of (rev (zip KA A)) k = Some r \<and> r \<in> set A \<and> statement_key r = Inr k"
    using s last_map_lookup [OF keys] by blast
  then show "statement_keys (List.map_filter (map_of (rev (zip KA A))) ks) = Inr ks"
    and "set (List.map_filter (map_of (rev (zip KA A))) ks) \<subseteq> set A"
    using map_filter_lookup [of ks "map_of (rev (zip KA A))" A] by blast+
qed

text \<open>
  C9. For every pair of statement collections A and B: the key of a record is its
  statement text, trimmed and in lower case. When every record has a statement text, and
  whatever the order in which the sets are iterated, the comparator returns the sizes of A
  and of B and two lists of records: the keys of the first list are exactly the keys of A
  that are not keys of B, each once, and its records are records of A; the same holds for
  the second list with A and B exchanged; so a key of both inputs is in neither list, and
  the two lists have no record in common. A record without a statement text makes the
  comparator raise. The comparator only returns these four values: the inputs are read,
  never written.
\<close>

theorem compare_sets_difference:
  "(\<forall>r s. map_of r ''statement'' = Some (JStr s) \<longrightarrow> statement_key r = Inr (lower (strip s))) \<and>
   (statement_keys A = Inl e \<longrightarrow> compare_sets iter A B = Inl e) \<and>
   (statement_keys A = Inr KA \<and> statement_keys B = Inl e \<longrightarrow> compare_sets iter A B = Inl e) \<and>
   ((\<forall>xs. mset (iter xs) = mset xs) \<and> statement_keys A = Inr KA \<and> statement_keys B = Inr KB \<longrightarrow>
      (\<exists>la lb ka kb.
         compare_sets iter A B = Inr (int (length A), int (length B), la, lb) \<and>
         statement_keys la = Inr ka \<and> statement_keys lb = Inr kb \<and>
         set ka = set KA - set KB \<and> set kb = set KB - set KA \<and>
         distinct ka \<and> distinct kb \<and>
         set la \<subseteq> set A \<and> set lb \<subseteq> set B \<and> set la \<inter> set lb = {}))"
proof -
  have key: "\<forall>r s. map_of r ''statement'' = Some (JStr s) \<longrightarrow> statement_key r = Inr (lower (strip s))"
    by (simp add: statement_key_def)
  have e1: "statement_keys A = Inl e \<longrightarrow> compare_sets iter A B = Inl e"
    by (simp add: compare_sets_def)
  have e2: "statement_keys A = Inr KA \<and> statement_keys B = Inl e \<longrightarrow> compare_sets iter A B = Inl e"
    by (simp add: compare_sets_def)
  have main: "\<exists>la lb ka kb.
         compare_sets iter A B = Inr (int (length A), int (length B), la, lb) \<and>
         statement_keys la = Inr ka \<and> statement_keys lb = Inr kb \<and>
         set ka = set KA - set KB \<and> set kb = set KB - set KA \<and>
         distinct ka \<and> distinct kb \<and>
         set la \<subseteq> set A \<and> set lb \<subseteq> set B \<and> set la \<inter> set lb = {}"
    if perm: "\<forall>xs. mset (iter xs) = mset xs"
      and kA: "statement_keys A = Inr KA" and kB: "statement_keys B = Inr KB"
  proof -
    let ?ka = "iter (filter (\<lambda>k. k \<notin> set KB) (remdups KA))"
    let ?kb = "iter (filter (\<lambda>k. k \<notin> set KA) (remdups KB))"
    let ?la = "List.map_filter (map_of (rev (zip KA A))) ?ka"
    let ?lb = "List.map_filter (map_of (rev (zip KB B))) ?kb"
    note a = missing_list [OF perm kA refl, of KB]
    note b = missing_list [OF perm kB refl, of KA]
    have disj: "set ?la \<inter> set ?lb = {}"
    proof (rule ccontr)
      assume "set ?la \<inter> set ?lb \<noteq> {}"
      then obtain r where r: "r \<in> set ?la" "r \<in> set ?lb" by blast
      obtain k where k: "k \<in> set ?ka" "statement_key r = Inr k"
        using statement_keys_member [OF a(1) r(1)] by blast
      obtain k' where k': "k' \<in> set ?kb" "statement_key r = Inr k'"
        using statement_keys_member [OF b(1) r(2)] by blast
      from k k' have "k \<in> set ?ka \<inter> set ?kb" by simp
      then show False using a(3) b(3) by blast
    qed
    show ?thesis
      using compare_sets_Inr [OF kA kB, of iter] a b disj by blast
  qed
  show ?thesis
    using key e1 e2 main by blast
qed

theorem compare_sets_difference_witness:
  "(\<forall>xs :: string list. mset (rev xs) = mset xs) \<and>
   map_of (hd site_sample) ''statement'' = Some (JStr '' Age > 18 '') \<and>
   statement_key (hd site_sample) = Inr ''age > 18'' \<and>
   statement_keys site_sample = Inr [''age > 18'', ''no cancer''] \<and>
   statement_keys json_sample = Inr [''age > 18'', ''pregnant''] \<and>
   compare_sets rev site_sample json_sample =
     Inr (2, 2, [[(''nctId'', JStr ''NCT1''), (''statement'', JStr ''No cancer'')]],
                [[(''nctId'', JStr ''NCT1''), (''statement'', JStr ''Pregnant'')]])"
proof -
  have p: "\<forall>xs :: string list. mset (rev xs) = mset xs"
    by simp
  have a: "statement_keys site_sample = Inr [''age > 18'', ''no cancer'']"
    by code_simp
  have b: "statement_keys json_sample = Inr [''age > 18'', ''pregnant'']"
    by code_simp
  have c: "compare_sets rev site_sample json_sample =
     Inr (2, 2, [[(''nctId'', JStr ''NCT1''), (''statement'', JStr ''No cancer'')]],
                [[(''nctId'', JStr ''NCT1''), (''statement'', JStr ''Pregnant'')]])"
    by code_simp
  have d: "map_of (hd site_sample) ''statement'' = Some (JStr '' Age > 18 '')"
    by (simp add: site_sample_def)
  have e: "lower (strip '' Age > 18 '') = ''age > 18''"
    by code_simp
  have f: "statement_key (hd site_sample) = Inr ''age > 18''"
    using compare_sets_difference [where A = site_sample and iter = rev and B = json_sample] d e
    by simp
  show ?thesis
    using p a b c d f by blast
qed


section \<open>Properties of the fetcher\<close>

lemma attempts: "[1..<MAX_RETRIES + 1] = [1, 2, 3]"
  by (simp add: MAX_RETRIES_def upt_rec)

lemma all_attempts:
  "(\<forall>attempt. 1 \<le> attempt \<and> attempt \<le> MAX_RETRIES \<longrightarrow> P attempt) = (P 1 \<and> P 2 \<and> P 3)"
proof -
  have "(1 \<le> a \<and> a \<le> MAX_RETRIES) = (a = 1 \<or> a = 2 \<or> a = 3)" for a
    by (auto simp: MAX_RETRIES_def)
  then show ?thesis by auto
qed

lemma empty_field:
  assumes "\<not> (400 \<le> code \<and> code < 600)" "kvs \<noteq> []"
    "\<forall>v. map_of kvs ''eligibilityCriteria'' = Some v \<longrightarrow> \<not> truthy v"
  shows "attempt_body repr (Response code (Some (payload (JObj kvs)))) =
     Inl (RuntimeError ''eligibilityCriteria missing/empty'')"
  using assms by (auto simp: attempt_body_def payload_def split: option.splits)

lemma fetch_unfold:
  "fetch_eligibility_html repr net =
     (case attempt_body repr (net 1) of
        Inr h \<Rightarrow> (Some h, \<lparr>last_exc = None, slept = [], requests = 1\<rparr>)
      | Inl e1 \<Rightarrow>
     (case attempt_body repr (net 2) of
        Inr h \<Rightarrow> (Some h, \<lparr>last_exc = Some e1, slept = [0.8], requests = 2\<rparr>)
      | Inl e2 \<Rightarrow>
     (case attempt_body repr (net 3) of
        Inr h \<Rightarrow> (Some h, \<lparr>last_exc = Some e2, slept = [0.8, 1.6], requests = 3\<rparr>)
      | Inl e3 \<Rightarrow> (None, \<lparr>last_exc = Some e3, slept = [0.8, 1.6, 2.4], requests = 3\<rparr>))))"
  unfolding fetch_eligibility_html_def attempts by (simp split: sum.splits)

text \<open>
  C6. For every identifier, whatever the network answers: \<open>fetch_eligibility_html\<close>
  sends at most three requests (\<open>MAX_RETRIES\<close>); after the failed attempt number k it sleeps
  k times 0.8 seconds, so the delays increase; it returns \<open>None\<close> exactly when all three
  attempts fail, and then it has made three requests and slept 0.8, 1.6 and 2.4 seconds; when
  it returns a text, that is the text of the first attempt that succeeded. An answer whose
  eligibility module lacks the \<open>eligibilityCriteria\<close> field, or holds an empty one, makes
  the attempt fail. Every exception of an attempt is a value handled by the loop, so the
  function always returns. In \<open>process_single\<close>, when both fetch strategies find no page,
  the result is the entry with status \<open>fetch_failed\<close>.
\<close>

theorem fetch_retries:
  "MAX_RETRIES = 3 \<and>
   requests (snd (fetch_eligibility_html repr net)) \<le> MAX_RETRIES \<and>
   slept (snd (fetch_eligibility_html repr net)) =
     map (\<lambda>attempt. 0.8 * real attempt)
       [1..<Suc (length (slept (snd (fetch_eligibility_html repr net))))] \<and>
   sorted_wrt (<) (slept (snd (fetch_eligibility_html repr net))) \<and>
   (fst (fetch_eligibility_html repr net) = None \<longleftrightarrow>
      (\<forall>attempt. 1 \<le> attempt \<and> attempt \<le> MAX_RETRIES \<longrightarrow>
         (\<exists>e. attempt_body repr (net attempt) = Inl e))) \<and>
   (fst (fetch_eligibility_html repr net) = None \<longrightarrow>
      requests (snd (fetch_eligibility_html repr net)) = MAX_RETRIES \<and>
      slept (snd (fetch_eligibility_html repr net)) = [0.8, 1.6, 2.4] \<and>
      (\<exists>e. last_exc (snd (fetch_eligibility_html repr net)) = Some e \<and>
           attempt_body repr (net MAX_RETRIES) = Inl e)) \<and>
   (fst (fetch_eligibility_html repr net) = Some html \<longrightarrow>
      (\<exists>attempt. 1 \<le> attempt \<and> attempt \<le> MAX_RETRIES \<and>
         attempt_body repr (net attempt) = Inr html \<and>
         requests (snd (fetch_eligibility_html repr net)) = attempt \<and>
         length (slept (snd (fetch_eligibility_html repr net))) = attempt - 1)) \<and>
   (\<not> (400 \<le> code \<and> code < 600) \<and> kvs \<noteq> [] \<and>
    (\<forall>v. map_of kvs ''eligibilityCriteria'' = Some v \<longrightarrow> \<not> truthy v) \<longrightarrow>
      attempt_body repr (Response code (Some (payload (JObj kvs)))) =
        Inl (RuntimeError ''eligibilityCriteria missing/empty'')) \<and>
   (fetch_via_api ex nct_id = Inr None \<and> fetch_page ex nct_id = Inr None \<longrightarrow>
      process_single ex iter nct_id json_data include_site_records =
        Inr \<lparr>nctId = nct_id, status = Fetch_failed, site_docs = 0,
             json_docs =
               int (length (filter (\<lambda>r. map_of r ''nctId'' = Some (JStr nct_id)) json_data)),
             missing_in_json = 0, missing_on_site = 0, site_records = None\<rparr>)"
proof -
  let ?F = "fetch_eligibility_html repr net"
  have m: "MAX_RETRIES = 3" by (simp add: MAX_RETRIES_def)
  have r: "requests (snd ?F) \<le> MAX_RETRIES"
    by (simp add: fetch_unfold m split: sum.splits)
  have s: "slept (snd ?F) = map (\<lambda>attempt. 0.8 * real attempt) [1..<Suc (length (slept (snd ?F)))]"
    by (simp add: fetch_unfold split: sum.splits)
  have o: "sorted_wrt (<) (slept (snd ?F))"
    by (simp add: fetch_unfold split: sum.splits)
  have n: "fst ?F = None \<longleftrightarrow>
      (\<forall>attempt. 1 \<le> attempt \<and> attempt \<le> MAX_RETRIES \<longrightarrow>
         (\<exists>e. attempt_body repr (net attempt) = Inl e))"
    unfolding all_attempts by (auto simp: fetch_unfold split: sum.splits)
  have f: "fst ?F = None \<longrightarrow>
      requests (snd ?F) = MAX_RETRIES \<and> slept (snd ?F) = [0.8, 1.6, 2.4] \<and>
      (\<exists>e. last_exc (snd ?F) = Some e \<and> attempt_body repr (net MAX_RETRIES) = Inl e)"
    by (auto simp: fetch_unfold m split: sum.splits)
  have h: "fst ?F = Some html \<longrightarrow>
      (\<exists>attempt. 1 \<le> attempt \<and> attempt \<le> MAX_RETRIES \<and>
         attempt_body repr (net attempt) = Inr html \<and>
         requests (snd ?F) = attempt \<and> length (slept (snd ?F)) = attempt - 1)"
  proof
    assume a: "fst ?F = Some html"
    consider (1) "attempt_body repr (net 1) = Inr html"
      | (2) e1 where "attempt_body repr (net 1) = Inl e1" "attempt_body repr (net 2) = Inr html"
      | (3) e1 e2 where "attempt_body repr (net 1) = Inl e1" "attempt_body repr (net 2) = Inl e2"
          "attempt_body repr (net 3) = Inr html"
      using a by (auto simp: fetch_unfold split: sum.splits)
    then show "\<exists>attempt. 1 \<le> attempt \<and> attempt \<le> MAX_RETRIES \<and>
         attempt_body repr (net attempt) = Inr html \<and>
         requests (snd ?F) = attempt \<and> length (slept (snd ?F)) = attempt - 1"
    proof cases
      case 1
      then show ?thesis by (intro exI [of _ 1]) (simp add: fetch_unfold m)
    next
      case 2
      then show ?thesis by (intro exI [of _ 2]) (simp add: fetch_unfold m)
    next
      case 3
      then show ?thesis by (intro exI [of _ 3]) (simp add: fetch_unfold m)
    qed
  qed
  have p: "fetch_via_api ex nct_id = Inr None \<and> fetch_page ex nct_id = Inr None \<longrightarrow>
      process_single ex iter nct_id json_data include_site_records =
        Inr \<lparr>nctId = nct_id, status = Fetch_failed, site_docs = 0,
             json_docs =
               int (length (filter (\<lambda>r. map_of r ''nctId'' = Some (JStr nct_id)) json_data)),
             missing_in_json = 0, missing_on_site = 0, site_records = None\<rparr>"
    by (simp add: process_single_def)
  show ?thesis
    using m r s o n f h p empty_field [of code kvs repr] by blast
qed

theorem fetch_retries_witness:
  "fetch_eligibility_html (\<lambda>v. []) net_empty_field =
     (None, \<lparr>last_exc = Some (RuntimeError ''eligibilityCriteria missing/empty''),
             slept = [0.8, 1.6, 2.4], requests = 3\<rparr>) \<and>
   fetch_eligibility_html (\<lambda>v. []) net_second_try =
     (Some ''<ol></ol>'', \<lparr>last_exc = Some RequestException, slept = [0.8], requests = 2\<rparr>) \<and>
   attempt_body (\<lambda>v. []) (net_second_try 2) = Inr ''<ol></ol>'' \<and>
   fetch_via_api no_pages ''NCT1'' = Inr None \<and> fetch_page no_pages ''NCT1'' = Inr None \<and>
   status (projr (process_single no_pages rev ''NCT1'' [] True)) = Fetch_failed"
proof -
  have a1: "attempt_body (\<lambda>v. []) (net_empty_field k) =
      Inl (RuntimeError ''eligibilityCriteria missing/empty'')" for k
    using fetch_retries [where code = 200 and kvs = "[(''eligibilityCriteria'', JStr [])]"
        and repr = "\<lambda>v. []"]
    by (simp add: net_empty_field_def)
  have a: "fetch_eligibility_html (\<lambda>v. []) net_empty_field =
     (None, \<lparr>last_exc = Some (RuntimeError ''eligibilityCriteria missing/empty''),
             slept = [0.8, 1.6, 2.4], requests = 3\<rparr>)"
    by (simp add: fetch_unfold a1)
  have b1: "attempt_body (\<lambda>v. []) (net_second_try 2) = Inr ''<ol></ol>''"
    by (simp add: net_second_try_def attempt_body_def payload_def py_str_def)
  have b2: "attempt_body (\<lambda>v. []) (net_second_try (Suc 0)) = Inl RequestException"
    by (simp add: net_second_try_def attempt_body_def)
  have b: "fetch_eligibility_html (\<lambda>v. []) net_second_try =
     (Some ''<ol></ol>'', \<lparr>last_exc = Some RequestException, slept = [0.8], requests = 2\<rparr>)"
    by (simp add: fetch_unfold b1 b2)
  have c: "fetch_via_api no_pages ''NCT1'' = Inr None \<and> fetch_page no_pages ''NCT1'' = Inr None"
    by (simp add: no_pages_def)
  have d: "status (projr (process_single no_pages rev ''NCT1'' [] True)) = Fetch_failed"
    using fetch_retries [where ex = no_pages and nct_id = "''NCT1''" and iter = rev
        and json_data = "[]" and include_site_records = True] c
    by simp
  show ?thesis
    using a b b1 c d by blast
qed


section \<open>Properties of the batch loops\<close>

lemma collect_step_eq:
  "collect_step task jd x st = (fst st @ [entry_of task jd x], snd st @ records_of task x)"
  by (cases "task x") (simp_all add: collect_step_def entry_of_def records_of_def)

lemma main_step_ids:
  "map row_nctId (fst (main_step analyze x st)) =
     map row_nctId (fst st) @ (if analyze x \<noteq> None then [x] else [])"
  by (cases "analyze x") (auto simp: main_step_def Let_def)

lemma outcomes_step_eq:
  "outcomes_step task x (a, f, n) =
     (a @ outcomes_of task x, f @ (if outcomes_of task x = [] then [x] else []), n + 1)"
  by (cases "task x") (simp_all add: outcomes_step_def outcomes_of_def)

lemma fold_collect_step:
  "fold (collect_step task jd) xs st =
     (fst st @ map (entry_of task jd) xs, snd st @ concat (map (records_of task) xs))"
proof (induction xs arbitrary: st)
  case Nil
  show ?case by simp
next
  case (Cons x xs)
  have "fold (collect_step task jd) (x # xs) st =
      fold (collect_step task jd) xs (collect_step task jd x st)"
    by simp
  also have "\<dots> = (fst (collect_step task jd x st) @ map (entry_of task jd) xs,
      snd (collect_step task jd x st) @ concat (map (records_of task) xs))"
    by (rule Cons.IH)
  also have "\<dots> = (fst st @ map (entry_of task jd) (x # xs),
      snd st @ concat (map (records_of task) (x # xs)))"
    by (simp add: collect_step_eq)
  finally show ?case .
qed

lemma collect_eq:
  "collect task jd xs = (map (entry_of task jd) xs, concat (map (records_of task) xs))"
  by (simp add: collect_def fold_collect_step)

lemma process_single_nctId:
  "process_single ex iter nct jd inc = Inr res \<Longrightarrow> nctId res = nct"
  by (auto simp: process_single_def Let_def split: sum.splits option.splits prod.splits)

lemma entry_of_nctId:
  "nctId (entry_of (\<lambda>nct. process_single ex iter nct jd inc) jd nct) = nct"
  by (cases "process_single ex iter nct jd inc") (auto simp: entry_of_def dest: process_single_nctId)

lemma fold_main_step:
  "map row_nctId (fst (fold (main_step analyze) xs st)) =
     map row_nctId (fst st) @ filter (\<lambda>nct. analyze nct \<noteq> None) xs"
proof (induction xs arbitrary: st)
  case Nil
  show ?case by simp
next
  case (Cons x xs)
  have "map row_nctId (fst (fold (main_step analyze) (x # xs) st)) =
      map row_nctId (fst (fold (main_step analyze) xs (main_step analyze x st)))"
    by simp
  also have "\<dots> = map row_nctId (fst (main_step analyze x st))
      @ filter (\<lambda>nct. analyze nct \<noteq> None) xs"
    by (rule Cons.IH)
  also have "\<dots> = map row_nctId (fst st) @ filter (\<lambda>nct. analyze nct \<noteq> None) (x # xs)"
    by (simp add: main_step_ids)
  finally show ?case .
qed

lemma fold_outcomes_step:
  "fold (outcomes_step task) xs (a, f, n) =
     (a @ concat (map (outcomes_of task) xs),
      f @ filter (\<lambda>nct. outcomes_of task nct = []) xs,
      n + int (length xs))"
proof (induction xs arbitrary: a f n)
  case Nil
  show ?case by simp
next
  case (Cons x xs)
  have "fold (outcomes_step task) (x # xs) (a, f, n) =
      fold (outcomes_step task) xs
        (a @ outcomes_of task x, f @ (if outcomes_of task x = [] then [x] else []), n + 1)"
    by (simp add: outcomes_step_eq)
  also have "\<dots> = ((a @ outcomes_of task x) @ concat (map (outcomes_of task) xs),
      (f @ (if outcomes_of task x = [] then [x] else []))
        @ filter (\<lambda>nct. outcomes_of task nct = []) xs,
      (n + 1) + int (length xs))"
    by (rule Cons.IH)
  also have "\<dots> = (a @ concat (map (outcomes_of task) (x # xs)),
      f @ filter (\<lambda>nct. outcomes_of task nct = []) (x # xs), n + int (length (x # xs)))"
    by simp
  finally show ?case .
qed

lemma outcomes_main_eq:
  "outcomes_main task xs =
     (concat (map (outcomes_of task) xs), filter (\<lambda>nct. outcomes_of task nct = []) xs,
      int (length xs))"
  by (simp add: outcomes_main_def fold_outcomes_step)

lemma mset_concat_map:
  "mset xs = mset ys \<Longrightarrow> mset (concat (map f xs)) = mset (concat (map f ys))"
proof -
  assume "mset xs = mset ys"
  then have "mset (map (\<lambda>x. mset (f x)) xs) = mset (map (\<lambda>x. mset (f x)) ys)"
    by simp
  then have "sum_list (map (\<lambda>x. mset (f x)) xs) = sum_list (map (\<lambda>x. mset (f x)) ys)"
    by (metis sum_mset_sum_list)
  then show ?thesis by (simp add: mset_concat comp_def)
qed

lemma sum_list_perm:
  fixes g :: "'a \<Rightarrow> int"
  shows "mset xs = mset ys \<Longrightarrow> sum_list (map g xs) = sum_list (map g ys)"
  by (metis mset_map sum_mset_sum_list)

text \<open>
  C7, as the claim states it, fails for the loop of \<open>dynamic_eligibility_checker.py\<close>:
  with two identifiers, the first of which cannot be loaded, the report has a row for the
  second only, and nothing for the first.
\<close>

theorem dropped_identifier_counterexample:
  "sample_load ''NCT1'' = Inl (OtherError ''timeout'') \<and>
   map row_nctId (fst (main_rows (fetch_and_analyze_nct sample_load) [''NCT1'', ''NCT2''])) =
     [''NCT2'']"
proof -
  have a: "fetch_and_analyze_nct sample_load ''NCT1'' = None"
    by (simp add: fetch_and_analyze_nct_def sample_load_def)
  have b: "fetch_and_analyze_nct sample_load ''NCT2'' \<noteq> None"
    by code_simp
  have "map row_nctId (fst (main_rows (fetch_and_analyze_nct sample_load) [''NCT1'', ''NCT2''])) =
      filter (\<lambda>nct. fetch_and_analyze_nct sample_load nct \<noteq> None) [''NCT1'', ''NCT2'']"
    unfolding main_rows_def fold_main_step by simp
  then show ?thesis
    using a b by (simp add: sample_load_def)
qed

text \<open>
  C7, amended. For every batch run of \<open>batch_compare_ncts.py\<close>, the report holds exactly
  one entry per dispatched identifier, in the order of completion: the result of the task
  (status \<open>ok\<close> or \<open>fetch_failed\<close>), or an entry with the status \<open>error\<close> when the task
  raised; no identifier is dropped. For every batch run of
  \<open>dynamic_eligibility_checker.py\<close>, the report holds one row for each identifier whose
  task succeeded, in dispatch order, and none for an identifier whose task failed (a task
  whose page cannot be loaded fails). In both, a failing task never keeps the other
  identifiers from being processed.
\<close>

theorem batch_entries:
  "fst (batch_compare ex iter json_data completed) =
     map (entry_of (\<lambda>nct. process_single ex iter nct json_data True) json_data) completed \<and>
   map nctId (fst (batch_compare ex iter json_data completed)) = completed \<and>
   (mset completed = mset nct_ids \<longrightarrow>
      mset (map nctId (fst (batch_compare ex iter json_data completed))) = mset nct_ids) \<and>
   (\<forall>nct e. process_single ex iter nct json_data True = Inl e \<longrightarrow>
      entry_of (\<lambda>nct. process_single ex iter nct json_data True) json_data nct =
        \<lparr>nctId = nct, status = Error e, site_docs = 0,
         json_docs =
           int (length (filter (\<lambda>r. map_of r ''nctId'' = Some (JStr nct)) json_data)),
         missing_in_json = 0, missing_on_site = 0, site_records = None\<rparr>) \<and>
   (\<forall>nct res. process_single ex iter nct json_data True = Inr res \<longrightarrow>
      entry_of (\<lambda>nct. process_single ex iter nct json_data True) json_data nct = res) \<and>
   map row_nctId (fst (main_rows analyze nct_ids)) =
     filter (\<lambda>nct. analyze nct \<noteq> None) nct_ids \<and>
   (\<forall>nct e. load nct = Inl e \<longrightarrow> fetch_and_analyze_nct load nct = None)"
proof -
  let ?task = "\<lambda>nct. process_single ex iter nct json_data True"
  have a: "fst (batch_compare ex iter json_data completed) =
      map (entry_of ?task json_data) completed"
    by (simp add: batch_compare_def collect_eq)
  have b: "map nctId (fst (batch_compare ex iter json_data completed)) = completed"
    unfolding a by (induction completed) (simp_all add: entry_of_nctId)
  have c: "mset completed = mset nct_ids \<longrightarrow>
      mset (map nctId (fst (batch_compare ex iter json_data completed))) = mset nct_ids"
    unfolding b by simp
  have d: "\<forall>nct e. ?task nct = Inl e \<longrightarrow>
      entry_of ?task json_data nct =
        \<lparr>nctId = nct, status = Error e, site_docs = 0,
         json_docs =
           int (length (filter (\<lambda>r. map_of r ''nctId'' = Some (JStr nct)) json_data)),
         missing_in_json = 0, missing_on_site = 0, site_records = None\<rparr>"
    by (simp add: entry_of_def)
  have e: "\<forall>nct res. ?task nct = Inr res \<longrightarrow> entry_of ?task json_data nct = res"
    by (simp add: entry_of_def)
  have f: "map row_nctId (fst (main_rows analyze nct_ids)) =
      filter (\<lambda>nct. analyze nct \<noteq> None) nct_ids"
    by (simp add: main_rows_def fold_main_step)
  have g: "\<forall>nct e. load nct = Inl e \<longrightarrow> fetch_and_analyze_nct load nct = None"
    by (simp add: fetch_and_analyze_nct_def)
  show ?thesis
    using a b c d e f g by blast
qed

theorem batch_entries_witness:
  "mset [''NCT3'', ''NCT1'', ''NCT2''] = mset [''NCT1'', ''NCT2'', ''NCT3''] \<and>
   map nctId (fst (batch_compare sample_extractors rev json_sample [''NCT3'', ''NCT1'', ''NCT2''])) =
     [''NCT3'', ''NCT1'', ''NCT2''] \<and>
   map status (fst (batch_compare sample_extractors rev json_sample [''NCT3'', ''NCT1'', ''NCT2''])) =
     [Ok, Error (OtherError ''connection reset''), Fetch_failed] \<and>
   process_single sample_extractors rev ''NCT1'' json_sample True =
     Inl (OtherError ''connection reset'') \<and>
   sample_load ''NCT1'' = Inl (OtherError ''timeout'') \<and>
   fetch_and_analyze_nct sample_load ''NCT1'' = None"
proof -
  note t = batch_entries [where ex = sample_extractors and iter = rev and json_data = json_sample
      and completed = "[''NCT3'', ''NCT1'', ''NCT2'']" and nct_ids = "[''NCT1'', ''NCT2'', ''NCT3'']"
      and load = sample_load]
  have m: "mset [''NCT3'', ''NCT1'', ''NCT2''] = mset [''NCT1'', ''NCT2'', ''NCT3'']"
    by (simp add: add_mset_commute)
  have p1: "process_single sample_extractors rev ''NCT1'' json_sample True =
      Inl (OtherError ''connection reset'')"
    by (simp add: process_single_def sample_extractors_def)
  have p2: "status (entry_of (\<lambda>nct. process_single sample_extractors rev nct json_sample True)
      json_sample ''NCT2'') = Fetch_failed"
    by (simp add: entry_of_def process_single_def sample_extractors_def)
  have p3: "status (entry_of (\<lambda>nct. process_single sample_extractors rev nct json_sample True)
      json_sample ''NCT3'') = Ok"
    by code_simp
  have p4: "status (entry_of (\<lambda>nct. process_single sample_extractors rev nct json_sample True)
      json_sample ''NCT1'') = Error (OtherError ''connection reset'')"
    using t p1 by simp
  have s: "map status (fst (batch_compare sample_extractors rev json_sample
      [''NCT3'', ''NCT1'', ''NCT2''])) = [Ok, Error (OtherError ''connection reset''), Fetch_failed]"
    using t p2 p3 p4 by simp
  have l: "sample_load ''NCT1'' = Inl (OtherError ''timeout'')"
    by (simp add: sample_load_def)
  have n: "fetch_and_analyze_nct sample_load ''NCT1'' = None"
    using t l by blast
  show ?thesis
    using t m p1 s l n by blast
qed

text \<open>
  C8, as the claim states it, fails: the lists the batch loops write out follow the order
  in which the tasks finish. For the same two identifiers finishing in the two possible
  orders, the rows of the summary of \<open>batch_compare_ncts.py\<close> come out in two different
  orders, and so does the list of failed identifiers of
  \<open>extract_secondary_outcomes_direct_batch.py\<close>.
\<close>

theorem completion_order_counterexample:
  "map nctId (fst (batch_compare sample_extractors rev json_sample [''NCT1'', ''NCT2''])) =
     [''NCT1'', ''NCT2''] \<and>
   map nctId (fst (batch_compare sample_extractors rev json_sample [''NCT2'', ''NCT1''])) =
     [''NCT2'', ''NCT1''] \<and>
   fst (snd (outcomes_main sample_outcomes [''NCT1'', ''NCT2''])) = [''NCT1'', ''NCT2''] \<and>
   fst (snd (outcomes_main sample_outcomes [''NCT2'', ''NCT1''])) = [''NCT2'', ''NCT1'']"
proof -
  have a: "map nctId (fst (batch_compare sample_extractors rev json_sample xs)) = xs" for xs
    by (induction xs) (simp_all add: batch_compare_def collect_eq entry_of_nctId)
  have b: "outcomes_of sample_outcomes ''NCT1'' = []" "outcomes_of sample_outcomes ''NCT2'' = []"
    by (simp_all add: outcomes_of_def sample_outcomes_def)
  show ?thesis
    by (simp add: a b outcomes_main_eq)
qed

text \<open>
  C8, amended. For any two batch runs over the same identifiers that differ only in the
  order in which the tasks finish, the reports hold the same entries, counted with
  multiplicity, and the same totals: the same summary entries, the same combined site
  records, the same sums of the numeric columns, the same outcomes, the same failed
  identifiers and the same counts. Only the order of the entries within the report follows
  the order of completion.
\<close>

theorem order_independent_contents:
  "mset completed = mset completed' \<longrightarrow>
     mset (fst (batch_compare ex iter json_data completed)) =
       mset (fst (batch_compare ex iter json_data completed')) \<and>
     mset (snd (batch_compare ex iter json_data completed)) =
       mset (snd (batch_compare ex iter json_data completed')) \<and>
     length (fst (batch_compare ex iter json_data completed)) =
       length (fst (batch_compare ex iter json_data completed')) \<and>
     sum_list (map site_docs (fst (batch_compare ex iter json_data completed))) =
       sum_list (map site_docs (fst (batch_compare ex iter json_data completed'))) \<and>
     sum_list (map missing_in_json (fst (batch_compare ex iter json_data completed))) =
       sum_list (map missing_in_json (fst (batch_compare ex iter json_data completed'))) \<and>
     sum_list (map missing_on_site (fst (batch_compare ex iter json_data completed))) =
       sum_list (map missing_on_site (fst (batch_compare ex iter json_data completed'))) \<and>
     mset (fst (outcomes_main task completed)) = mset (fst (outcomes_main task completed')) \<and>
     mset (fst (snd (outcomes_main task completed))) =
       mset (fst (snd (outcomes_main task completed'))) \<and>
     length (fst (outcomes_main task completed)) = length (fst (outcomes_main task completed')) \<and>
     length (fst (snd (outcomes_main task completed))) =
       length (fst (snd (outcomes_main task completed'))) \<and>
     snd (snd (outcomes_main task completed)) = snd (snd (outcomes_main task completed'))"
proof
  assume m: "mset completed = mset completed'"
  let ?t = "\<lambda>nct. process_single ex iter nct json_data True"
  have r: "mset (fst (batch_compare ex iter json_data completed)) =
      mset (fst (batch_compare ex iter json_data completed'))"
    using m by (simp add: batch_compare_def collect_eq)
  have c: "mset (snd (batch_compare ex iter json_data completed)) =
      mset (snd (batch_compare ex iter json_data completed'))"
    using mset_concat_map [OF m, of "records_of ?t"] by (simp add: batch_compare_def collect_eq)
  have l: "length (fst (batch_compare ex iter json_data completed)) =
      length (fst (batch_compare ex iter json_data completed'))"
    using r by (rule mset_eq_length)
  have s: "sum_list (map g (fst (batch_compare ex iter json_data completed))) =
      sum_list (map g (fst (batch_compare ex iter json_data completed')))" for g :: "summary \<Rightarrow> int"
    using r by (rule sum_list_perm)
  have o: "mset (fst (outcomes_main task completed)) = mset (fst (outcomes_main task completed'))"
    using mset_concat_map [OF m, of "outcomes_of task"] by (simp add: outcomes_main_eq)
  have f: "mset (fst (snd (outcomes_main task completed))) =
      mset (fst (snd (outcomes_main task completed')))"
    using m by (simp add: outcomes_main_eq)
  have n: "snd (snd (outcomes_main task completed)) = snd (snd (outcomes_main task completed'))"
    using mset_eq_length [OF m] by (simp add: outcomes_main_eq)
  show "mset (fst (batch_compare ex iter json_data completed)) =
       mset (fst (batch_compare ex iter json_data completed')) \<and>
     mset (snd (batch_compare ex iter json_data completed)) =
       mset (snd (batch_compare ex iter json_data completed')) \<and>
     length (fst (batch_compare ex iter json_data completed)) =
       length (fst (batch_compare ex iter json_data completed')) \<and>
     sum_list (map site_docs (fst (batch_compare ex iter json_data completed))) =
       sum_list (map site_docs (fst (batch_compare ex iter json_data completed'))) \<and>
     sum_list (map missing_in_json (fst (batch_compare ex iter json_data completed))) =
       sum_list (map missing_in_json (fst (batch_compare ex iter json_data completed'))) \<and>
     sum_list (map missing_on_site (fst (batch_compare ex iter json_data completed))) =
       sum_list (map missing_on_site (fst (batch_compare ex iter json_data completed'))) \<and>
     mset (fst (outcomes_main task completed)) = mset (fst (outcomes_main task completed')) \<and>
     mset (fst (snd (outcomes_main task completed))) =
       mset (fst (snd (outcomes_main task completed'))) \<and>
     length (fst (outcomes_main task completed)) = length (fst (outcomes_main task completed')) \<and>
     length (fst (snd (outcomes_main task completed))) =
       length (fst (snd (outcomes_main task completed'))) \<and>
     snd (snd (outcomes_main task completed)) = snd (snd (outcomes_main task completed'))"
    using r c l s o f n mset_eq_length [OF o] mset_eq_length [OF f] by blast
qed

theorem order_independent_contents_witness:
  "mset [''NCT1'', ''NCT2'', ''NCT3''] = mset [''NCT3'', ''NCT1'', ''NCT2''] \<and>
   mset (fst (batch_compare sample_extractors rev json_sample [''NCT1'', ''NCT2'', ''NCT3''])) =
     mset (fst (batch_compare sample_extractors rev json_sample [''NCT3'', ''NCT1'', ''NCT2''])) \<and>
   outcomes_main sample_outcomes [''NCT1'', ''NCT2'', ''NCT3''] =
     ([[(''nctId'', JStr ''NCT3''), (''measure'', JStr ''Overall survival'')]],
      [''NCT1'', ''NCT2''], 3) \<and>
   outcomes_main sample_outcomes [''NCT3'', ''NCT1'', ''NCT2''] =
     ([[(''nctId'', JStr ''NCT3''), (''measure'', JStr ''Overall survival'')]],
      [''NCT1'', ''NCT2''], 3)"
proof -
  have m: "mset [''NCT1'', ''NCT2'', ''NCT3''] = mset [''NCT3'', ''NCT1'', ''NCT2'']"
    by (simp add: add_mset_commute)
  have a: "outcomes_main sample_outcomes [''NCT1'', ''NCT2'', ''NCT3''] =
     ([[(''nctId'', JStr ''NCT3''), (''measure'', JStr ''Overall survival'')]],
      [''NCT1'', ''NCT2''], 3)"
    by (simp add: outcomes_main_eq outcomes_of_def sample_outcomes_def)
  have b: "outcomes_main sample_outcomes [''NCT3'', ''NCT1'', ''NCT2''] =
     ([[(''nctId'', JStr ''NCT3''), (''measure'', JStr ''Overall survival'')]],
      [''NCT1'', ''NCT2''], 3)"
    by (simp add: outcomes_main_eq outcomes_of_def sample_outcomes_def)
  show ?thesis
    using m a b
      order_independent_contents [where completed = "[''NCT1'', ''NCT2'', ''NCT3'']"
        and completed' = "[''NCT3'', ''NCT1'', ''NCT2'']" and ex = sample_extractors
        and iter = rev and json_data = json_sample]
    by blast
qed


end
